theory Spec2Isabelle
  imports Main "HOL-Library.Word" "HOL-Library.Multiset"
begin

unbundle bit_operations_syntax

section \<open>Data model of the instrumentation runtime\<close>

text \<open>
  The runtime (\<^verbatim>\<open>afl-llvm-rt.o.c\<close>) keeps all of its state in globals. The C types
  \<^verbatim>\<open>u8\<close>, \<^verbatim>\<open>u32\<close>, \<^verbatim>\<open>s32\<close> are 8- and 32-bit words; \<^verbatim>\<open>char\<close>, \<^verbatim>\<open>short\<close>, \<^verbatim>\<open>int\<close> and
  \<^verbatim>\<open>long long\<close> are words of 8, 16, 32 and 64 bits read as two's complement
  (\<^verbatim>\<open>char\<close> is signed, as on the x86 targets the runtime is built for), and
  arithmetic on them wraps around.

  A buffer is a flat store of bytes addressed by the offset from its base; the Feedback Map
  proper is the offsets \<open>0 \<le> i < MAP_SIZE\<close>. The recorders index the buffer with an
  \<^verbatim>\<open>int\<close> that they do not check, so the store is total on offsets.
\<close>

type_synonym u8 = "8 word"
type_synonym u32 = "32 word"
type_synonym s32 = "32 word"
type_synonym area = "int \<Rightarrow> u8"

text \<open>
  Modelled from the spec: \<^verbatim>\<open>MAP_SIZE\<close> comes from \<^verbatim>\<open>config.h\<close>, which is not part of the
  sources at hand; the spec gives the capacity \<open>N\<close> of the Feedback Map as 65536.
\<close>

definition MAP_SIZE :: int where
  "MAP_SIZE = 65536"

section \<open>Branch-distance recorder\<close>

text \<open>
  The bodies of \<^verbatim>\<open>log_br8\<close>, \<^verbatim>\<open>log_br16\<close>, \<^verbatim>\<open>log_br32\<close> and \<^verbatim>\<open>log_br64\<close> are the same
  \<^verbatim>\<open>switch (type)\<close> statement, textually; they differ in the operand types and in the type
  of \<^verbatim>\<open>br_dist\<close> (\<^verbatim>\<open>int\<close> in the first three, \<^verbatim>\<open>long long\<close> in the last). The switch is
  embedded once, for a distance of any width, with the case labels and the nested tests in
  the order of the source. \<open>m\<close> is the buffer \<^verbatim>\<open>__afl_area_ptr\<close> points to.
\<close>

definition log_br_switch :: "area \<Rightarrow> int \<Rightarrow> int \<Rightarrow> 'a::len word \<Rightarrow> u8 \<Rightarrow> area" where
  "log_br_switch m br_id type br_dist val =
    (if type = 0 \<or> type = 1 then
       (if 0 <s br_dist then
          (if val = 0 then m(br_id := 1)
           else if val = 2 then m(br_id := 3) else m)
        else if br_dist \<le>s 0 then
          (if val = 0 then m(br_id := 2)
           else if val = 1 then m(br_id := 3) else m)
        else m)
     else if type = 2 \<or> type = 7 \<or> type = 11 then
       (if br_dist = 0 then
          (if val = 0 then m(br_id := 1)
           else if val = 2 then m(br_id := 3) else m)
        else if br_dist \<noteq> 0 then
          (if val = 0 then m(br_id := 2)
           else if val = 1 then m(br_id := 3) else m)
        else m)
     else if type = 3 \<or> type = 4 then
       (if 0 \<le>s br_dist then
          (if val = 0 then m(br_id := 1)
           else if val = 2 then m(br_id := 3) else m)
        else if br_dist <s 0 then
          (if val = 0 then m(br_id := 2)
           else if val = 1 then m(br_id := 3) else m)
        else m)
     else if type = 5 \<or> type = 6 then
       (if br_dist <s 0 then
          (if val = 0 then m(br_id := 1)
           else if val = 2 then m(br_id := 3) else m)
        else if 0 \<le>s br_dist then
          (if val = 0 then m(br_id := 2)
           else if val = 1 then m(br_id := 3) else m)
        else m)
     else if type = 8 \<or> type = 9 then
       (if br_dist \<le>s 0 then
          (if val = 0 then m(br_id := 1)
           else if val = 2 then m(br_id := 3) else m)
        else if 0 <s br_dist then
          (if val = 0 then m(br_id := 2)
           else if val = 1 then m(br_id := 3) else m)
        else m)
     else m)"

text \<open>
  \<^verbatim>\<open>int br_dist = op1 - op2\<close>: the \<^verbatim>\<open>char\<close> and \<^verbatim>\<open>short\<close> operands are promoted to
  \<^verbatim>\<open>int\<close> (sign extension) before the subtraction; the \<^verbatim>\<open>int\<close> and \<^verbatim>\<open>long long\<close>
  operands are subtracted at their own width, where the difference wraps around.
\<close>

definition log_br8 :: "area \<Rightarrow> int \<Rightarrow> int \<Rightarrow> 8 word \<Rightarrow> 8 word \<Rightarrow> int \<Rightarrow> area" where
  "log_br8 m br_id type op1 op2 constant_loc =
    (let br_dist = (scast op1 :: 32 word) - scast op2;
         val = m br_id
     in if val = 3 then m else log_br_switch m br_id type br_dist val)"

definition log_br16 :: "area \<Rightarrow> int \<Rightarrow> int \<Rightarrow> 16 word \<Rightarrow> 16 word \<Rightarrow> int \<Rightarrow> area" where
  "log_br16 m br_id type op1 op2 constant_loc =
    (let br_dist = (scast op1 :: 32 word) - scast op2;
         val = m br_id
     in if val = 3 then m else log_br_switch m br_id type br_dist val)"

definition log_br32 :: "area \<Rightarrow> int \<Rightarrow> int \<Rightarrow> 32 word \<Rightarrow> 32 word \<Rightarrow> int \<Rightarrow> area" where
  "log_br32 m br_id type op1 op2 constant_loc =
    (let br_dist = op1 - op2;
         val = m br_id
     in if val = 3 then m else log_br_switch m br_id type br_dist val)"

definition log_br64 :: "area \<Rightarrow> int \<Rightarrow> int \<Rightarrow> 64 word \<Rightarrow> 64 word \<Rightarrow> int \<Rightarrow> area" where
  "log_br64 m br_id type op1 op2 constant_loc =
    (let br_dist = op1 - op2;
         val = m br_id
     in if val = 3 then m else log_br_switch m br_id type br_dist val)"

text \<open>
  The string recorders receive the result \<^verbatim>\<open>ret\<close> of the library comparison and apply the
  equality rule to it, whatever \<^verbatim>\<open>type\<close> is.
\<close>

definition log_strcmp :: "area \<Rightarrow> int \<Rightarrow> int \<Rightarrow> s32 \<Rightarrow> int \<Rightarrow> area" where
  "log_strcmp m br_id type ret constant_loc =
    (let br_dist = ret;
         val = m br_id
     in if val = 3 then m
        else if br_dist = 0 then
          (if val = 0 then m(br_id := 1)
           else if val = 2 then m(br_id := 3) else m)
        else if br_dist \<noteq> 0 then
          (if val = 0 then m(br_id := 2)
           else if val = 1 then m(br_id := 3) else m)
        else m)"

text \<open>
  \<^verbatim>\<open>log_strncmp\<close> keeps the two low bits of the cell in \<^verbatim>\<open>val\<close> and stores
  \<^verbatim>\<open>state + (len << 2)\<close>, an \<^verbatim>\<open>int\<close> that the store into the \<^verbatim>\<open>char\<close> cell truncates to
  its low byte. (\<^verbatim>\<open>saved_len\<close> is computed from the masked \<^verbatim>\<open>val\<close> and never used.)
\<close>

definition log_strncmp :: "area \<Rightarrow> int \<Rightarrow> int \<Rightarrow> s32 \<Rightarrow> s32 \<Rightarrow> int \<Rightarrow> area" where
  "log_strncmp m br_id type len ret constant_loc =
    (let br_dist = ret;
         val = m br_id;
         val = val AND 0x3
     in if val = 3 then m
        else if br_dist = 0 then
          (if val = 0 then m(br_id := ucast (1 + push_bit 2 len))
           else if val = 2 then m(br_id := ucast (3 + push_bit 2 len)) else m)
        else if br_dist \<noteq> 0 then
          (if val = 0 then m(br_id := ucast (2 + push_bit 2 len))
           else if val = 1 then m(br_id := ucast (3 + push_bit 2 len)) else m)
        else m)"

text \<open>
  One call of the recorder: the operands select the entry point, as the instrumentation
  does by operand width.
\<close>

datatype operands =
    Ops8 "8 word" "8 word"
  | Ops16 "16 word" "16 word"
  | Ops32 "32 word" "32 word"
  | Ops64 "64 word" "64 word"
  | OpsStr s32
  | OpsStrn s32 s32

fun record_branch :: "area \<Rightarrow> int \<Rightarrow> int \<Rightarrow> operands \<Rightarrow> int \<Rightarrow> area" where
  "record_branch m br_id type (Ops8 a b) cl = log_br8 m br_id type a b cl"
| "record_branch m br_id type (Ops16 a b) cl = log_br16 m br_id type a b cl"
| "record_branch m br_id type (Ops32 a b) cl = log_br32 m br_id type a b cl"
| "record_branch m br_id type (Ops64 a b) cl = log_br64 m br_id type a b cl"
| "record_branch m br_id type (OpsStr ret) cl = log_strcmp m br_id type ret cl"
| "record_branch m br_id type (OpsStrn len ret) cl = log_strncmp m br_id type len ret cl"

section \<open>Target-branch value capture\<close>

text \<open>
  How a call ends: it returns to the target, or the process ends in \<^verbatim>\<open>exit\<close>/\<^verbatim>\<open>_exit\<close>
  with a status, or in \<^verbatim>\<open>abort\<close> after a diagnostic on \<^verbatim>\<open>stderr\<close>, or it never comes back
  (the supervisor's parent loop). Each carries the memory the call left behind.
\<close>

datatype 'a outcome =
    Returns 'a
  | Exits int 'a
  | Aborts string 'a
  | Blocks 'a

fun final :: "'a outcome \<Rightarrow> 'a" where
  "final (Returns x) = x"
| "final (Exits st x) = x"
| "final (Aborts msg x) = x"
| "final (Blocks x) = x"

text \<open>
  \<^verbatim>\<open>((int *)__afl_area_ptr)[k]\<close>: the capture slot is the first sixteen bytes of the buffer
  read as four \<^verbatim>\<open>int\<close>s, least significant byte first (the byte order of the x86 targets).
\<close>

definition load_int :: "area \<Rightarrow> int \<Rightarrow> s32" where
  "load_int m k =
     ucast (m (4 * k)) OR push_bit 8 (ucast (m (4 * k + 1)))
       OR push_bit 16 (ucast (m (4 * k + 2))) OR push_bit 24 (ucast (m (4 * k + 3)))"

definition store_int :: "area \<Rightarrow> int \<Rightarrow> s32 \<Rightarrow> area" where
  "store_int m k w =
     m(4 * k := ucast w, 4 * k + 1 := ucast (drop_bit 8 w),
       4 * k + 2 := ucast (drop_bit 16 w), 4 * k + 3 := ucast (drop_bit 24 w))"

text \<open>
  A C string is the list of its characters before the terminating NUL; \<^verbatim>\<open>op[0]\<close> of the
  empty string is that NUL.
\<close>

type_synonym cstring = "8 word list"

fun first_char :: "cstring \<Rightarrow> 8 word" where
  "first_char [] = 0"
| "first_char (c # cs) = c"

definition check_br8 :: "area \<Rightarrow> int \<Rightarrow> 8 word \<Rightarrow> 8 word \<Rightarrow> int \<Rightarrow> area outcome" where
  "check_br8 m br_id op1 op2 constant_loc =
    (let target_br_id = load_int m 0
     in if br_id = sint target_br_id then
          (let m1 = store_int m 1 (scast op1);
               m2 = store_int m1 2 (scast op2);
               m3 = store_int m2 3 12
           in Exits 0 m3)
        else Returns m)"

definition check_br16 :: "area \<Rightarrow> int \<Rightarrow> 16 word \<Rightarrow> 16 word \<Rightarrow> int \<Rightarrow> area outcome" where
  "check_br16 m br_id op1 op2 constant_loc =
    (let target_br_id = load_int m 0
     in if br_id = sint target_br_id then
          (let m1 = store_int m 1 (scast op1);
               m2 = store_int m1 2 (scast op2);
               m3 = store_int m2 3 12
           in Exits 0 m3)
        else Returns m)"

definition check_br32 :: "area \<Rightarrow> int \<Rightarrow> 32 word \<Rightarrow> 32 word \<Rightarrow> int \<Rightarrow> area outcome" where
  "check_br32 m br_id op1 op2 constant_loc =
    (let target_br_id = load_int m 0
     in if br_id = sint target_br_id then
          (let m1 = store_int m 1 op1;
               m2 = store_int m1 2 op2;
               m3 = store_int m2 3 12
           in Exits 0 m3)
        else Returns m)"

text \<open>\<^verbatim>\<open>(int)op1\<close> on a \<^verbatim>\<open>long long\<close> keeps the low 32 bits.\<close>

definition check_br64 :: "area \<Rightarrow> int \<Rightarrow> 64 word \<Rightarrow> 64 word \<Rightarrow> int \<Rightarrow> area outcome" where
  "check_br64 m br_id op1 op2 constant_loc =
    (let target_br_id = load_int m 0
     in if br_id = sint target_br_id then
          (let m1 = store_int m 1 (ucast op1);
               m2 = store_int m1 2 (ucast op2);
               m3 = store_int m2 3 12
           in Exits 0 m3)
        else Returns m)"

definition check_strcmp ::
  "area \<Rightarrow> int \<Rightarrow> int \<Rightarrow> cstring \<Rightarrow> cstring \<Rightarrow> s32 \<Rightarrow> int \<Rightarrow> area outcome" where
  "check_strcmp m br_id type op1 op2 ret constant_loc =
    (let target_br_id = load_int m 0
     in if br_id = sint target_br_id then
          (let m1 = store_int m 1 (scast (first_char op1));
               m2 = store_int m1 2 (scast (first_char op2));
               m3 = store_int m2 3 12
           in Exits 0 m3)
        else Returns m)"

definition check_strncmp ::
  "area \<Rightarrow> int \<Rightarrow> int \<Rightarrow> cstring \<Rightarrow> cstring \<Rightarrow> s32 \<Rightarrow> s32 \<Rightarrow> int \<Rightarrow> area outcome" where
  "check_strncmp m br_id type op1 op2 len ret constant_loc =
    (let target_br_id = load_int m 0
     in if br_id = sint target_br_id then
          (let m1 = store_int m 1 (scast (first_char op1));
               m2 = store_int m1 2 (scast (first_char op2));
               m3 = store_int m2 3 12
           in Exits 0 m3)
        else Returns m)"

text \<open>One call of the capture hook, by operand kind.\<close>

datatype capture_operands =
    Cap8 "8 word" "8 word"
  | Cap16 "16 word" "16 word"
  | Cap32 "32 word" "32 word"
  | Cap64 "64 word" "64 word"
  | CapStr int cstring cstring s32
  | CapStrn int cstring cstring s32 s32

fun maybe_capture :: "area \<Rightarrow> int \<Rightarrow> capture_operands \<Rightarrow> int \<Rightarrow> area outcome" where
  "maybe_capture m br_id (Cap8 a b) cl = check_br8 m br_id a b cl"
| "maybe_capture m br_id (Cap16 a b) cl = check_br16 m br_id a b cl"
| "maybe_capture m br_id (Cap32 a b) cl = check_br32 m br_id a b cl"
| "maybe_capture m br_id (Cap64 a b) cl = check_br64 m br_id a b cl"
| "maybe_capture m br_id (CapStr type a b ret) cl = check_strcmp m br_id type a b ret cl"
| "maybe_capture m br_id (CapStrn type a b len ret) cl =
     check_strncmp m br_id type a b len ret cl"

section \<open>Runtime state, attach and edge coverage\<close>

text \<open>
  The globals of the runtime. \<^verbatim>\<open>__afl_area_ptr\<close> points either to \<^verbatim>\<open>__afl_area_initial\<close>
  or to the attached shared segment; both buffers are kept, with the pointer saying which
  one is active. \<open>first_pass\<close> and \<open>cycle_cnt\<close> are the function-local statics of
  \<^verbatim>\<open>__afl_persistent_loop\<close>, \<open>init_done\<close> that of \<^verbatim>\<open>__afl_manual_init\<close>. \<open>sigstops\<close> is
  not a variable of the program: it counts the \<^verbatim>\<open>raise(SIGSTOP)\<close> calls made so far.
\<close>

datatype area_ref = AreaInitial | AreaShm

record rt_state =
  area_initial :: area
  shm_region :: area
  area_ptr :: area_ref
  prev_loc :: u32
  is_persistent :: u8
  first_pass :: u8
  cycle_cnt :: u32
  init_done :: u8
  sigstops :: nat

definition zero_area :: area where
  "zero_area = (\<lambda>i. 0)"

text \<open>
  The state at program start: statics without an initialiser are zero, \<^verbatim>\<open>first_pass\<close> is
  initialised to 1 and the pointer to the private buffer.
\<close>

definition init_state :: rt_state where
  "init_state =
    \<lparr>area_initial = zero_area, shm_region = zero_area, area_ptr = AreaInitial,
     prev_loc = 0, is_persistent = 0, first_pass = 1, cycle_cnt = 0, init_done = 0,
     sigstops = 0\<rparr>"

definition get_area :: "rt_state \<Rightarrow> area" where
  "get_area s = (case area_ptr s of AreaInitial \<Rightarrow> area_initial s | AreaShm \<Rightarrow> shm_region s)"

definition put_area :: "area \<Rightarrow> rt_state \<Rightarrow> rt_state" where
  "put_area a s =
    (case area_ptr s of
       AreaInitial \<Rightarrow> s\<lparr>area_initial := a\<rparr>
     | AreaShm \<Rightarrow> s\<lparr>shm_region := a\<rparr>)"

text \<open>
  \<^verbatim>\<open>__afl_map_shm\<close>. \<open>id_str\<close> is the result of \<^verbatim>\<open>getenv(SHM_ENV_VAR)\<close>; \<^verbatim>\<open>atoi\<close> and
  \<^verbatim>\<open>shmat\<close> belong to the C library and the kernel and are parameters: \<open>shmat\<close> gives the
  attached segment with its present contents, or \<open>None\<close> for the error value
  \<^verbatim>\<open>(void *)-1\<close>. The pointer holds that error value only between the assignment and
  \<^verbatim>\<open>_exit(1)\<close>.
\<close>

definition afl_map_shm ::
  "(string \<Rightarrow> s32) \<Rightarrow> (u32 \<Rightarrow> area option) \<Rightarrow> string option \<Rightarrow> rt_state \<Rightarrow> rt_state outcome" where
  "afl_map_shm atoi shmat id_str s =
    (case id_str of
       None \<Rightarrow> Returns s
     | Some str \<Rightarrow>
         (let shm_id = atoi str
          in case shmat shm_id of
               None \<Rightarrow> Exits 1 s
             | Some seg \<Rightarrow>
                 (let s1 = s\<lparr>shm_region := seg, area_ptr := AreaShm\<rparr>
                  in Returns (put_area ((get_area s1)(0 := 1)) s1))))"

text \<open>
  The code the pass inserts at the head of a basic block (\<^verbatim>\<open>AFLCoverage::runOnModule\<close>):
  load \<^verbatim>\<open>__afl_prev_loc\<close>, xor it with the block's constant \<^verbatim>\<open>cur_loc\<close>, load the byte at
  that index of the map, add 1 to it as an 8-bit value, store it back, and store
  \<^verbatim>\<open>cur_loc >> 1\<close> (computed by the pass on an \<^verbatim>\<open>unsigned int\<close>) into \<^verbatim>\<open>__afl_prev_loc\<close>.
  The index of the address computation is a 32-bit value that is sign-extended.
\<close>

definition edge_key :: "u32 \<Rightarrow> u32 \<Rightarrow> int" where
  "edge_key cur_loc prev = sint (prev XOR cur_loc)"

definition record_edge :: "u32 \<Rightarrow> rt_state \<Rightarrow> rt_state" where
  "record_edge cur_loc s =
    (let PrevLoc = prev_loc s;
         MapPtr = get_area s;
         MapPtrIdx = edge_key cur_loc PrevLoc;
         Counter = MapPtr MapPtrIdx;
         Incr = Counter + 1;
         s1 = put_area (MapPtr(MapPtrIdx := Incr)) s
     in s1\<lparr>prev_loc := drop_bit 1 cur_loc\<rparr>)"

text \<open>\<^verbatim>\<open>__sanitizer_cov_trace_pc_guard\<close>: \<^verbatim>\<open>__afl_area_ptr[*guard]++\<close>.\<close>

definition trace_pc_guard :: "u32 \<Rightarrow> rt_state \<Rightarrow> rt_state" where
  "trace_pc_guard guard s =
    put_area ((get_area s)(uint guard := get_area s (uint guard) + 1)) s"

section \<open>Persistent-loop helper\<close>

text \<open>\<^verbatim>\<open>memset(__afl_area_ptr, 0, MAP_SIZE)\<close> clears the offsets of the map proper.\<close>

definition memset0 :: "area \<Rightarrow> area" where
  "memset0 a = (\<lambda>i. if 0 \<le> i \<and> i < MAP_SIZE then 0 else a i)"

text \<open>
  \<^verbatim>\<open>__afl_persistent_loop\<close>, with the return value first. \<^verbatim>\<open>raise(SIGSTOP)\<close> suspends the
  process until the supervisor continues it; the embedding follows the process after it
  has been continued and counts the suspension in \<open>sigstops\<close>.
\<close>

definition afl_persistent_loop :: "u32 \<Rightarrow> rt_state \<Rightarrow> int \<times> rt_state" where
  "afl_persistent_loop max_cnt s =
    (if first_pass s \<noteq> 0 then
       (let s1 = (if is_persistent s \<noteq> 0
                  then (put_area ((memset0 (get_area s))(0 := 1)) s)\<lparr>prev_loc := 0\<rparr>
                  else s)
        in (1, s1\<lparr>cycle_cnt := max_cnt, first_pass := 0\<rparr>))
     else if is_persistent s \<noteq> 0 then
       (let s1 = s\<lparr>cycle_cnt := cycle_cnt s - 1\<rparr>
        in if cycle_cnt s1 \<noteq> 0 then
             (let s2 = s1\<lparr>sigstops := Suc (sigstops s1)\<rparr>;
                  s3 = put_area ((get_area s2)(0 := 1)) s2
              in (1, s3\<lparr>prev_loc := 0\<rparr>))
           else (0, s1\<lparr>area_ptr := AreaInitial\<rparr>))
     else (0, s))"

text \<open>
  The helper called once per element of a list of budgets: for each call, what it returned
  and the byte at offset 0 of the buffer \<^verbatim>\<open>__afl_area_ptr\<close> points to when it returned.
\<close>

fun persistent_calls :: "u32 list \<Rightarrow> rt_state \<Rightarrow> (int \<times> u8) list" where
  "persistent_calls [] s = []"
| "persistent_calls (k # ks) s =
     (case afl_persistent_loop k s of
        (r, s1) \<Rightarrow> (r, get_area s1 0) # persistent_calls ks s1)"

section \<open>Process supervisor\<close>

text \<open>
  The supervisor talks to the operating system only. The system calls it issues are
  recorded in order; what the system answers is scripted: one \<open>round\<close> holds the answers
  to the calls of one iteration of the \<^verbatim>\<open>while (1)\<close> loop (an answer to a call that the
  iteration does not make is not looked at). The two descriptors are \<^verbatim>\<open>FORKSRV_FD\<close> and
  \<^verbatim>\<open>FORKSRV_FD + 1\<close>, whose number \<^verbatim>\<open>config.h\<close> fixes.
\<close>

datatype fd = FORKSRV_FD | FORKSRV_FD_1

datatype wait_options = NoOptions | WUNTRACED

datatype syscall =
    SysWrite fd
  | SysRead fd
  | SysFork
  | SysWaitpid s32 wait_options
  | SysKillCont s32
  | SysClose fd

record round =
  read_ret :: int
  was_killed :: u32
  reap_ret :: int
  fork_ret :: s32
  write_pid_ret :: int
  wait_ret :: int
  wait_status :: s32
  write_status_ret :: int

text \<open>\<^verbatim>\<open>WIFSTOPPED\<close> of \<^verbatim>\<open><sys/wait.h>\<close>: the low byte of the status is \<^verbatim>\<open>0x7f\<close>.\<close>

definition WIFSTOPPED :: "s32 \<Rightarrow> bool" where
  "WIFSTOPPED status = (status AND 0xff = 0x7f)"

text \<open>
  One iteration of the loop, from \<^verbatim>\<open>child_pid\<close> and \<^verbatim>\<open>child_stopped\<close>: it goes on to the
  next iteration with new values of the two, or returns in the child, or ends the process.
  \<open>fs_parent\<close> is the part of the iteration after the \<^verbatim>\<open>if (!child_stopped)\<close> statement,
  where \<^verbatim>\<open>child_stopped\<close> is 0 on both paths; \<open>t\<close> is the calls issued so far.
\<close>

datatype fs_step =
    Continue s32 u8
  | InChild
  | Terminate int

definition fs_parent :: "u8 \<Rightarrow> s32 \<Rightarrow> syscall list \<Rightarrow> round \<Rightarrow> fs_step \<times> syscall list" where
  "fs_parent persistent child_pid t r =
    (let t1 = t @ [SysWrite FORKSRV_FD_1]
     in if write_pid_ret r \<noteq> 4 then (Terminate 1, t1)
        else
          (let t2 = t1 @ [SysWaitpid child_pid (if persistent \<noteq> 0 then WUNTRACED else NoOptions)]
           in if wait_ret r < 0 then (Terminate 1, t2)
              else
                (let child_stopped = (if WIFSTOPPED (wait_status r) then 1 else 0);
                     t3 = t2 @ [SysWrite FORKSRV_FD_1]
                 in if write_status_ret r \<noteq> 4 then (Terminate 1, t3)
                    else (Continue child_pid child_stopped, t3))))"

definition fs_round :: "u8 \<Rightarrow> s32 \<Rightarrow> u8 \<Rightarrow> round \<Rightarrow> fs_step \<times> syscall list" where
  "fs_round persistent child_pid child_stopped r =
    (if read_ret r \<noteq> 4 then (Terminate 1, [SysRead FORKSRV_FD])
     else
       (let reap = (child_stopped \<noteq> 0 \<and> was_killed r \<noteq> 0);
            t1 = SysRead FORKSRV_FD # (if reap then [SysWaitpid child_pid NoOptions] else []);
            child_stopped1 = (if reap then 0 else child_stopped)
        in if reap \<and> reap_ret r < 0 then (Terminate 1, t1)
           else if child_stopped1 = 0 then
             (let child_pid1 = fork_ret r;
                  t2 = t1 @ [SysFork]
              in if child_pid1 <s 0 then (Terminate 1, t2)
                 else if child_pid1 = 0 then
                   (InChild, t2 @ [SysClose FORKSRV_FD, SysClose FORKSRV_FD_1])
                 else fs_parent persistent child_pid1 t2 r)
           else fs_parent persistent child_pid (t1 @ [SysKillCont child_pid]) r))"

text \<open>
  How the supervisor ends for the process that is followed: it gave up on the controller and
  returned, it returned in a forked child, it ended the process, or it is still the parent
  waiting for the next request when the script is used up.
\<close>

datatype fs_outcome =
    Disengaged
  | ChildResumes
  | Terminated int
  | AwaitRequest s32 u8

fun fs_loop :: "u8 \<Rightarrow> s32 \<Rightarrow> u8 \<Rightarrow> round list \<Rightarrow> fs_outcome \<times> syscall list" where
  "fs_loop persistent child_pid child_stopped [] = (AwaitRequest child_pid child_stopped, [])"
| "fs_loop persistent child_pid child_stopped (r # rs) =
     (case fs_round persistent child_pid child_stopped r of
        (Terminate st, t) \<Rightarrow> (Terminated st, t)
      | (InChild, t) \<Rightarrow> (ChildResumes, t)
      | (Continue child_pid1 child_stopped1, t) \<Rightarrow>
          (case fs_loop persistent child_pid1 child_stopped1 rs of (out, t') \<Rightarrow> (out, t @ t')))"

text \<open>
  \<^verbatim>\<open>__afl_start_forkserver\<close>: \<open>hello_ret\<close> is what the first \<^verbatim>\<open>write\<close> returns.
  \<^verbatim>\<open>child_pid\<close> has no initialiser; it is assigned by the first \<^verbatim>\<open>fork\<close> before anything
  reads it, since \<^verbatim>\<open>child_stopped\<close> starts at 0.
\<close>

definition afl_start_forkserver ::
  "int \<Rightarrow> round list \<Rightarrow> rt_state \<Rightarrow> fs_outcome \<times> syscall list" where
  "afl_start_forkserver hello_ret rounds s =
    (if hello_ret \<noteq> 4 then (Disengaged, [SysWrite FORKSRV_FD_1])
     else (case fs_loop (is_persistent s) 0 0 rounds of
             (out, t) \<Rightarrow> (out, SysWrite FORKSRV_FD_1 # t)))"

text \<open>
  \<^verbatim>\<open>__afl_manual_init\<close> (and \<^verbatim>\<open>__afl_auto_init\<close>, which only calls it), with everything the
  environment answers gathered in one record.
\<close>

record init_env =
  env_atoi :: "string \<Rightarrow> s32"
  env_shmat :: "u32 \<Rightarrow> area option"
  env_shm_id :: "string option"
  env_hello_ret :: int
  env_rounds :: "round list"

definition afl_manual_init :: "init_env \<Rightarrow> rt_state \<Rightarrow> rt_state outcome" where
  "afl_manual_init e s =
    (if init_done s = 0 then
       (case afl_map_shm (env_atoi e) (env_shmat e) (env_shm_id e) s of
          Returns s1 \<Rightarrow>
            (case fst (afl_start_forkserver (env_hello_ret e) (env_rounds e) s1) of
               Disengaged \<Rightarrow> Returns (s1\<lparr>init_done := 1\<rparr>)
             | ChildResumes \<Rightarrow> Returns (s1\<lparr>init_done := 1\<rparr>)
             | Terminated st \<Rightarrow> Exits st s1
             | AwaitRequest p c \<Rightarrow> Blocks s1)
        | other \<Rightarrow> other)
     else Returns s)"

section \<open>Instrumentation density\<close>

text \<open>
  The pass (\<^verbatim>\<open>AFLCoverage::runOnModule\<close>) reads \<^verbatim>\<open>AFL_INST_RATIO\<close> before it looks at any
  block. \<open>inst_ratio_str\<close> is the result of \<^verbatim>\<open>getenv\<close>; \<^verbatim>\<open>sscanf\<close> with \<^verbatim>\<open>"%u"\<close> belongs to
  the C library and is a parameter that gives the number of conversions and the value
  converted.

  Modelled from the spec: \<^verbatim>\<open>FATAL\<close> is a macro of \<^verbatim>\<open>debug.h\<close>, which is not part of the
  sources at hand; by the spec an invalid density ratio is fatal with a descriptive
  diagnostic, so the pass ends with the message (\<open>Inl\<close>) and instruments nothing.
\<close>

definition decide_inst_ratio :: "(string \<Rightarrow> int \<times> u32) \<Rightarrow> string option \<Rightarrow> string + u32" where
  "decide_inst_ratio sscanf_u inst_ratio_str =
    (case inst_ratio_str of
       None \<Rightarrow> Inr 100
     | Some str \<Rightarrow>
         (case sscanf_u str of
            (n, inst_ratio) \<Rightarrow>
              if n \<noteq> 1 \<or> inst_ratio = 0 \<or> inst_ratio > 100
              then Inl ''Bad value of AFL_INST_RATIO (must be between 1 and 100)''
              else Inr inst_ratio))"

text \<open>
  Modelled from the spec: \<^verbatim>\<open>AFL_R(x)\<close> and \<^verbatim>\<open>R(x)\<close> are macros of \<^verbatim>\<open>config.h\<close> and
  \<^verbatim>\<open>types.h\<close>, which are not part of the sources at hand; they draw a random number below
  \<open>x\<close>. \<open>r\<close> is the number \<^verbatim>\<open>random()\<close> returned.
\<close>

definition R :: "nat \<Rightarrow> nat \<Rightarrow> nat" where
  "R r x = r mod x"

text \<open>
  The blocks the pass instruments: \<^verbatim>\<open>if (AFL_R(100) >= inst_ratio) continue;\<close> with one
  random draw per block.
\<close>

definition instrument_blocks ::
  "(string \<Rightarrow> int \<times> u32) \<Rightarrow> string option \<Rightarrow> nat list \<Rightarrow> string + bool list" where
  "instrument_blocks sscanf_u inst_ratio_str draws =
    (case decide_inst_ratio sscanf_u inst_ratio_str of
       Inl msg \<Rightarrow> Inl msg
     | Inr inst_ratio \<Rightarrow> Inr (map (\<lambda>r. \<not> (R r 100 \<ge> unat inst_ratio)) draws))"

text \<open>
  \<^verbatim>\<open>__sanitizer_cov_trace_pc_guard_init\<close> on the guard table between \<^verbatim>\<open>start\<close> and
  \<^verbatim>\<open>stop\<close>. \<open>rnd n\<close> is what the \<open>n\<close>-th call of \<^verbatim>\<open>random()\<close> returns, \<open>x\<close> the result of
  \<^verbatim>\<open>getenv("AFL_INST_RATIO")\<close>, and \<^verbatim>\<open>atoi\<close> a parameter.
\<close>

fun fill_guards :: "u32 \<Rightarrow> (nat \<Rightarrow> nat) \<Rightarrow> nat \<Rightarrow> u32 list \<Rightarrow> u32 list" where
  "fill_guards inst_ratio rnd n [] = []"
| "fill_guards inst_ratio rnd n (g # gs) =
     (if R (rnd n) 100 < unat inst_ratio
      then of_nat (R (rnd (n + 1)) (nat (MAP_SIZE - 1)) + 1) # fill_guards inst_ratio rnd (n + 2) gs
      else 0 # fill_guards inst_ratio rnd (n + 1) gs)"

definition trace_pc_guard_init ::
  "(string \<Rightarrow> s32) \<Rightarrow> (nat \<Rightarrow> nat) \<Rightarrow> string option \<Rightarrow> u32 list \<Rightarrow> u32 list outcome" where
  "trace_pc_guard_init atoi rnd x guards =
    (case guards of
       [] \<Rightarrow> Returns guards
     | g # gs \<Rightarrow>
         if g \<noteq> 0 then Returns guards
         else
           (let inst_ratio = (case x of None \<Rightarrow> 100 | Some str \<Rightarrow> atoi str)
            in if inst_ratio = 0 \<or> inst_ratio > 100
               then Aborts (''[-] ERROR: Invalid AFL_INST_RATIO (must be 1-100).'' @ [CHR 0x0A]) guards
               else Returns (of_nat (R (rnd 0) (nat (MAP_SIZE - 1)) + 1)
                             # fill_guards inst_ratio rnd 1 gs)))"

text \<open>
  When a bad density value is turned down. The pass is a plug-in of the compiler:
  \<^verbatim>\<open>runOnModule\<close> runs while the target is built, and \<^verbatim>\<open>FATAL\<close> ends the compilation. The
  runtime is linked into the target: \<^verbatim>\<open>__sanitizer_cov_trace_pc_guard_init\<close> is the callback
  the target runs on the guard table of a module when the module is loaded, and \<^verbatim>\<open>abort()\<close>
  ends the target process. \<open>pass_error\<close> reads a result of the pass, \<open>target_error\<close> an
  outcome of code that runs in the target process.
\<close>

datatype phase = InstrumentationTime | RunTime

definition pass_error :: "string + 'a \<Rightarrow> (phase \<times> string) option" where
  "pass_error r = (case r of Inl msg \<Rightarrow> Some (InstrumentationTime, msg) | Inr x \<Rightarrow> None)"

definition target_error :: "'a outcome \<Rightarrow> (phase \<times> string) option" where
  "target_error r = (case r of Aborts msg x \<Rightarrow> Some (RunTime, msg) | other \<Rightarrow> None)"

section \<open>The operations of the runtime on its state\<close>

text \<open>
  Everything the instrumented target can make the runtime do: the recorders and the
  capture hook work in the buffer \<^verbatim>\<open>__afl_area_ptr\<close> points to.
\<close>

datatype event =
    Edge u32
  | Guard u32
  | Branch int int operands int
  | Capture int capture_operands int
  | Loop u32
  | Init init_env

fun on_area :: "area outcome \<Rightarrow> rt_state \<Rightarrow> rt_state outcome" where
  "on_area (Returns a) s = Returns (put_area a s)"
| "on_area (Exits st a) s = Exits st (put_area a s)"
| "on_area (Aborts msg a) s = Aborts msg (put_area a s)"
| "on_area (Blocks a) s = Blocks (put_area a s)"

fun exec :: "event \<Rightarrow> rt_state \<Rightarrow> rt_state outcome" where
  "exec (Edge cur_loc) s = Returns (record_edge cur_loc s)"
| "exec (Guard g) s = Returns (trace_pc_guard g s)"
| "exec (Branch br_id type ops cl) s =
     Returns (put_area (record_branch (get_area s) br_id type ops cl) s)"
| "exec (Capture br_id ops cl) s = on_area (maybe_capture (get_area s) br_id ops cl) s"
| "exec (Loop max_cnt) s = Returns (snd (afl_persistent_loop max_cnt s))"
| "exec (Init e) s = afl_manual_init e s"

text \<open>A run of the process: the operations in order, up to the first that does not return.\<close>

fun run :: "event list \<Rightarrow> rt_state \<Rightarrow> rt_state outcome" where
  "run [] s = Returns s"
| "run (e # es) s =
     (case exec e s of Returns s1 \<Rightarrow> run es s1 | other \<Rightarrow> other)"

section \<open>Vocabulary of the specification\<close>

text \<open>
  The tie-break table of the specification, on an integer distance. The table names the
  kinds by family; which kind codes belong to which family is read off the case labels of
  the recorders. A code outside the table has no predicate.
\<close>

definition kind_pred :: "int \<Rightarrow> int \<Rightarrow> bool option" where
  "kind_pred type d =
    (if type = 0 \<or> type = 1 then Some (0 < d)
     else if type = 2 \<or> type = 7 \<or> type = 11 then Some (d = 0)
     else if type = 3 \<or> type = 4 then Some (0 \<le> d)
     else if type = 5 \<or> type = 6 then Some (d < 0)
     else if type = 8 \<or> type = 9 then Some (d \<le> 0)
     else None)"

text \<open>
  The distance of the specification, \<open>operand_a - operand_b\<close>, as an integer; for the string
  recorders it is the result of the library comparison.
\<close>

fun exact_dist :: "operands \<Rightarrow> int" where
  "exact_dist (Ops8 a b) = sint a - sint b"
| "exact_dist (Ops16 a b) = sint a - sint b"
| "exact_dist (Ops32 a b) = sint a - sint b"
| "exact_dist (Ops64 a b) = sint a - sint b"
| "exact_dist (OpsStr ret) = sint ret"
| "exact_dist (OpsStrn len ret) = sint ret"

text \<open>The width of \<^verbatim>\<open>br_dist\<close> in the recorder a call goes to.\<close>

fun dist_bits :: "operands \<Rightarrow> nat" where
  "dist_bits (Ops64 a b) = 64"
| "dist_bits ops = 32"

definition fits :: "operands \<Rightarrow> bool" where
  "fits ops =
    (- (2 ^ (dist_bits ops - 1)) \<le> exact_dist ops \<and> exact_dist ops < 2 ^ (dist_bits ops - 1))"

text \<open>The distance of the specification reduced to that width in two's complement.\<close>

definition wrapped_dist :: "operands \<Rightarrow> int" where
  "wrapped_dist ops = signed_take_bit (dist_bits ops - 1) (exact_dist ops)"

fun is_strn :: "operands \<Rightarrow> bool" where
  "is_strn (OpsStrn len ret) = True"
| "is_strn ops = False"

fun is_str :: "operands \<Rightarrow> bool" where
  "is_str (OpsStr ret) = True"
| "is_str (OpsStrn len ret) = True"
| "is_str ops = False"

fun is_narrow :: "operands \<Rightarrow> bool" where
  "is_narrow (Ops8 a b) = True"
| "is_narrow (Ops16 a b) = True"
| "is_narrow ops = False"

text \<open>
  The polarity of a call in the words of the specification, for a reading \<open>dist\<close> of the
  distance: for an integer comparison the table's predicate for the kind (none for a kind
  outside the table); for a string comparison the equality rule on the library result,
  for which the specification names no kind.
\<close>

definition polarity_on :: "(operands \<Rightarrow> int) \<Rightarrow> int \<Rightarrow> operands \<Rightarrow> bool option" where
  "polarity_on dist type ops =
    (if is_str ops then Some (dist ops = 0) else kind_pred type (dist ops))"

text \<open>
  The state of a cell is its two low bits (the bounded string recorder packs a length into
  the other six); the order is \<open>0 < {1, 2} < 3\<close>. A polarity is written as the state of a
  cell that has seen only it, and 0 stands for a call without polarity.
\<close>

definition cell_state :: "u8 \<Rightarrow> u8" where
  "cell_state c = c AND 3"

definition state_le :: "u8 \<Rightarrow> u8 \<Rightarrow> bool" where
  "state_le a b = (a = b \<or> a = 0 \<or> b = 3)"

definition pol_code :: "bool \<Rightarrow> u8" where
  "pol_code this = (if this then 1 else 2)"

text \<open>
  The state machine of the specification, from the state \<open>s\<close> of a cell and the polarity
  \<open>p\<close> of a call: a saturated cell stays, an unseen cell takes the polarity, a cell that
  has seen this polarity stays, a cell that has seen the other one becomes saturated.
\<close>

definition absorb :: "u8 \<Rightarrow> u8 \<Rightarrow> u8" where
  "absorb s p = (if s = 3 \<or> p = 0 then s else if s = 0 then p else if s = p then s else 3)"


section \<open>What the recorders make of a call\<close>

text \<open>
  Read off the code, not the specification. \<open>br_dist_of\<close> is the signed number the
  recorder holds in its variable \<^verbatim>\<open>br_dist\<close>. \<open>recorded\<close> is the test the recorder applies to
  it: the integer recorders go by the case label of \<^verbatim>\<open>type\<close>; \<^verbatim>\<open>log_strcmp\<close> and
  \<^verbatim>\<open>log_strncmp\<close> have no \<^verbatim>\<open>switch\<close> and compare \<^verbatim>\<open>ret\<close> with 0 whatever \<^verbatim>\<open>type\<close> is.
\<close>

fun br_dist_of :: "operands \<Rightarrow> int" where
  "br_dist_of (Ops8 a b) = sint ((scast a :: 32 word) - scast b)"
| "br_dist_of (Ops16 a b) = sint ((scast a :: 32 word) - scast b)"
| "br_dist_of (Ops32 a b) = sint (a - b)"
| "br_dist_of (Ops64 a b) = sint (a - b)"
| "br_dist_of (OpsStr ret) = sint ret"
| "br_dist_of (OpsStrn len ret) = sint ret"

definition recorded :: "int \<Rightarrow> operands \<Rightarrow> bool option" where
  "recorded type ops =
    (if is_str ops then Some (br_dist_of ops = 0) else kind_pred type (br_dist_of ops))"

text \<open>
  The two shapes of the nested tests on \<^verbatim>\<open>val\<close> in the recorders: the five that store the
  plain state, and \<^verbatim>\<open>log_strncmp\<close>, which adds the length.
\<close>

definition spec_transition :: "area \<Rightarrow> int \<Rightarrow> u8 \<Rightarrow> bool \<Rightarrow> area" where
  "spec_transition m br_id val this =
    (if this then (if val = 0 then m(br_id := 1) else if val = 2 then m(br_id := 3) else m)
     else (if val = 0 then m(br_id := 2) else if val = 1 then m(br_id := 3) else m))"

definition strn_transition :: "area \<Rightarrow> int \<Rightarrow> u8 \<Rightarrow> s32 \<Rightarrow> bool \<Rightarrow> area" where
  "strn_transition m br_id val len this =
    (if this then (if val = 0 then m(br_id := ucast (1 + push_bit 2 len))
                   else if val = 2 then m(br_id := ucast (3 + push_bit 2 len)) else m)
     else (if val = 0 then m(br_id := ucast (2 + push_bit 2 len))
           else if val = 1 then m(br_id := ucast (3 + push_bit 2 len)) else m))"

text \<open>The cell an unseen branch gets from one call: how the recorder classifies the call.\<close>

definition classify :: "int \<Rightarrow> operands \<Rightarrow> u8" where
  "classify type ops = record_branch zero_area 0 type ops 0 0"

text \<open>
  The polarity of a call as the recorder takes it: the state of the cell an unseen branch
  gets from the call, 0 when the call leaves it unseen.
\<close>

definition polarity_of :: "int \<Rightarrow> operands \<Rightarrow> u8" where
  "polarity_of type ops = cell_state (classify type ops)"

type_synonym rb_call = "int \<times> int \<times> operands \<times> int"

fun record_branches :: "area \<Rightarrow> rb_call list \<Rightarrow> area" where
  "record_branches m [] = m"
| "record_branches m ((br_id, type, ops, cl) # cs) =
     record_branches (record_branch m br_id type ops cl) cs"


text \<open>
  A branch id stands for one comparison site, and a site calls one recorder. A cell is
  plain when it holds a state and no length, as the cells of the five recorders other
  than \<^verbatim>\<open>log_strncmp\<close> do. In a sequence of calls the id \<open>j\<close> has one recorder when its calls
  all go to \<^verbatim>\<open>log_strncmp\<close>, or none of them does and its cell is plain at the start.
  \<open>polarities\<close> lists the polarities of the calls for \<open>j\<close>, in order.
\<close>

definition plain :: "u8 \<Rightarrow> bool" where
  "plain c = (c = 0 \<or> c = 1 \<or> c = 2 \<or> c = 3)"

fun strn_at :: "int \<Rightarrow> rb_call \<Rightarrow> bool" where
  "strn_at j (br_id, type, ops, cl) = (br_id = j \<and> is_strn ops)"

fun plain_at :: "int \<Rightarrow> rb_call \<Rightarrow> bool" where
  "plain_at j (br_id, type, ops, cl) = (br_id = j \<and> \<not> is_strn ops)"

definition one_recorder :: "int \<Rightarrow> area \<Rightarrow> rb_call list \<Rightarrow> bool" where
  "one_recorder j m cs =
    (\<not> list_ex (plain_at j) cs \<or> (plain (m j) \<and> \<not> list_ex (strn_at j) cs))"

fun polarities :: "int \<Rightarrow> rb_call list \<Rightarrow> u8 list" where
  "polarities j [] = []"
| "polarities j ((br_id, type, ops, cl) # cs) =
     (if br_id = j then [polarity_of type ops] else []) @ polarities j cs"

section \<open>Vocabulary for the other components\<close>

text \<open>
  What the capture slot holds of an operand, as a signed number: the value of an 8-, 16- or
  32-bit operand, the low 32 bits of a 64-bit operand, the first character of a string.
\<close>

fun captured_a :: "capture_operands \<Rightarrow> int" where
  "captured_a (Cap8 a b) = sint a"
| "captured_a (Cap16 a b) = sint a"
| "captured_a (Cap32 a b) = sint a"
| "captured_a (Cap64 a b) = signed_take_bit 31 (sint a)"
| "captured_a (CapStr type a b ret) = sint (first_char a)"
| "captured_a (CapStrn type a b len ret) = sint (first_char a)"

fun captured_b :: "capture_operands \<Rightarrow> int" where
  "captured_b (Cap8 a b) = sint b"
| "captured_b (Cap16 a b) = sint b"
| "captured_b (Cap32 a b) = sint b"
| "captured_b (Cap64 a b) = signed_take_bit 31 (sint b)"
| "captured_b (CapStr type a b ret) = sint (first_char b)"
| "captured_b (CapStrn type a b len ret) = sint (first_char b)"

text \<open>The 32-bit values the hook stores for the two operands, and the slot after a capture.\<close>

fun stored_a :: "capture_operands \<Rightarrow> s32" where
  "stored_a (Cap8 a b) = scast a"
| "stored_a (Cap16 a b) = scast a"
| "stored_a (Cap32 a b) = a"
| "stored_a (Cap64 a b) = ucast a"
| "stored_a (CapStr type a b ret) = scast (first_char a)"
| "stored_a (CapStrn type a b len ret) = scast (first_char a)"

fun stored_b :: "capture_operands \<Rightarrow> s32" where
  "stored_b (Cap8 a b) = scast b"
| "stored_b (Cap16 a b) = scast b"
| "stored_b (Cap32 a b) = b"
| "stored_b (Cap64 a b) = ucast b"
| "stored_b (CapStr type a b ret) = scast (first_char b)"
| "stored_b (CapStrn type a b len ret) = scast (first_char b)"

definition capture_slot :: "area \<Rightarrow> s32 \<Rightarrow> s32 \<Rightarrow> area" where
  "capture_slot m a b = store_int (store_int (store_int m 1 a) 2 b) 3 12"

text \<open>The fields of the state other than the active buffer and \<^verbatim>\<open>__afl_prev_loc\<close>.\<close>

definition control :: "rt_state \<Rightarrow> area_ref \<times> u8 \<times> u8 \<times> u32 \<times> u8 \<times> nat" where
  "control s = (area_ptr s, is_persistent s, first_pass s, cycle_cnt s, init_done s, sigstops s)"

text \<open>The buffer \<^verbatim>\<open>__afl_area_ptr\<close> does not point to.\<close>

definition idle_area :: "rt_state \<Rightarrow> area" where
  "idle_area s = (case area_ptr s of AreaInitial \<Rightarrow> shm_region s | AreaShm \<Rightarrow> area_initial s)"

text \<open>
  The protocol failures of one iteration of the supervisor's loop, as the specification
  lists them: a short read of the request, a failing wait (for a stopped child the
  controller has killed, or for the running child), a failing fork, a short write of the
  pid or of the status. Whether the iteration reaps and whether it forks depends on
  \<^verbatim>\<open>child_stopped\<close>; in a forked child the later answers of the round are not looked at.
\<close>

definition reaps :: "u8 \<Rightarrow> round \<Rightarrow> bool" where
  "reaps child_stopped r = (child_stopped \<noteq> 0 \<and> was_killed r \<noteq> 0)"

definition forks :: "u8 \<Rightarrow> round \<Rightarrow> bool" where
  "forks child_stopped r = (child_stopped = 0 \<or> reaps child_stopped r)"

definition protocol_failure :: "u8 \<Rightarrow> round \<Rightarrow> bool" where
  "protocol_failure child_stopped r =
    (read_ret r \<noteq> 4
     \<or> (reaps child_stopped r \<and> reap_ret r < 0)
     \<or> (forks child_stopped r \<and> fork_ret r <s 0)
     \<or> (\<not> (forks child_stopped r \<and> fork_ret r = 0)
         \<and> (write_pid_ret r \<noteq> 4 \<or> wait_ret r < 0 \<or> write_status_ret r \<noteq> 4)))"

text \<open>Calls that belong to persistent mode: a wait that reports stops, a resumed child.\<close>

fun is_untraced_wait :: "syscall \<Rightarrow> bool" where
  "is_untraced_wait (SysWaitpid pid WUNTRACED) = True"
| "is_untraced_wait c = False"

fun is_resume :: "syscall \<Rightarrow> bool" where
  "is_resume (SysKillCont pid) = True"
| "is_resume c = False"

text \<open>What the calls of the persistent-loop helper return in a run, in order.\<close>

fun loop_results :: "event list \<Rightarrow> rt_state \<Rightarrow> int list" where
  "loop_results [] s = []"
| "loop_results (e # es) s =
     (case exec e s of
        Returns s1 \<Rightarrow>
          (case e of Loop max_cnt \<Rightarrow> [fst (afl_persistent_loop max_cnt s)] | other \<Rightarrow> [])
            @ loop_results es s1
      | other \<Rightarrow> [])"

text \<open>The state a run from program start has left behind.\<close>

definition state_after :: "event list \<Rightarrow> rt_state" where
  "state_after evs = final (run evs init_state)"

text \<open>
  Sample answers of the operating system: a round in which everything succeeds and the
  child exits, a round in which \<^verbatim>\<open>fork\<close> fails, and an environment without controller and
  without shared memory handle.
\<close>

definition good_round :: round where
  "good_round =
    \<lparr>read_ret = 4, was_killed = 0, reap_ret = 0, fork_ret = 1000, write_pid_ret = 4,
     wait_ret = 1000, wait_status = 0, write_status_ret = 4\<rparr>"

definition fork_fails_round :: round where
  "fork_fails_round =
    \<lparr>read_ret = 4, was_killed = 0, reap_ret = 0, fork_ret = - 1, write_pid_ret = 4,
     wait_ret = 1000, wait_status = 0, write_status_ret = 4\<rparr>"

definition no_controller :: init_env where
  "no_controller =
    \<lparr>env_atoi = (\<lambda>str. 0), env_shmat = (\<lambda>shm_id. None), env_shm_id = None,
     env_hello_ret = - 1, env_rounds = []\<rparr>"

section \<open>Branch-distance recorder: what a call writes\<close>

lemma log_br_switch_closed:
  "log_br_switch m i t d v =
     (case kind_pred t (sint d) of None \<Rightarrow> m | Some p \<Rightarrow> spec_transition m i v p)"
  unfolding log_br_switch_def kind_pred_def spec_transition_def
  by (simp add: word_sless_alt word_sle_eq not_less not_le signed_eq_0_iff)

lemma log_strcmp_closed:
  "log_strcmp m i t ret cl =
     (if m i = 3 then m else spec_transition m i (m i) (ret = 0))"
  by (simp add: log_strcmp_def Let_def spec_transition_def)

lemma log_strncmp_closed:
  "log_strncmp m i t len ret cl =
     (if m i AND 3 = 3 then m else strn_transition m i (m i AND 3) len (ret = 0))"
  by (simp add: log_strncmp_def Let_def strn_transition_def)

lemma record_branch_closed:
  "\<not> is_strn ops \<Longrightarrow> record_branch m i t ops cl =
     (if m i = 3 then m
      else case recorded t ops of None \<Rightarrow> m | Some p \<Rightarrow> spec_transition m i (m i) p)"
  by (cases ops)
     (simp_all add: log_br8_def log_br16_def log_br32_def log_br64_def Let_def
        log_br_switch_closed log_strcmp_closed recorded_def signed_eq_0_iff)

lemma record_branch_strn_closed:
  "record_branch m i t (OpsStrn len ret) cl =
     (if m i AND 3 = 3 then m else strn_transition m i (m i AND 3) len (ret = 0))"
  by (simp add: log_strncmp_closed)

lemma mod4_drop: "((x + (y * 4 mod 4294967296)) mod 4294967296) mod 4 = (x :: int) mod 4"
proof -
  have d: "(4::int) dvd 4294967296" by simp
  have "((x + (y * 4 mod 4294967296)) mod 4294967296) mod 4 = (x + (y * 4 mod 4294967296)) mod 4"
    by (rule mod_mod_cancel [OF d])
  also have "\<dots> = (x mod 4 + (y * 4 mod 4294967296) mod 4) mod 4"
    by (simp only: mod_add_eq)
  also have "(y * 4 mod 4294967296) mod 4 = (y * 4) mod 4"
    by (rule mod_mod_cancel [OF d])
  also have "(y * 4) mod 4 = 0" by simp
  finally show ?thesis by simp
qed

lemma low_bits_packed: "(ucast ((k :: 32 word) + push_bit 2 len) :: 8 word) AND 3 = ucast k AND 3"
proof -
  have "take_bit 2 (ucast (k + push_bit 2 len) :: 8 word) = take_bit 2 (ucast k :: 8 word)"
    apply (simp add: word_uint_eq_iff)
    apply (simp add: unsigned_take_bit_eq unsigned_ucast_eq push_bit_eq_mult uint_word_ariths)
    apply (simp only: take_bit_eq_mod power2_eq_square)
    apply (simp add: mod4_drop)
    done
  then show ?thesis by (simp add: take_bit_eq_mask mask_eq_exp_minus_1)
qed

lemma cell_state_packed [simp]:
  "cell_state (ucast ((1 :: 32 word) + push_bit 2 len)) = 1"
  "cell_state (ucast ((2 :: 32 word) + push_bit 2 len)) = 2"
  "cell_state (ucast ((3 :: 32 word) + push_bit 2 len)) = 3"
  by (simp_all add: cell_state_def low_bits_packed)

lemma cell_state_num [simp]:
  "cell_state 0 = 0" "cell_state 1 = 1" "cell_state 2 = 2" "cell_state 3 = 3"
  by (simp_all add: cell_state_def)

lemma record_branch_other: "j \<noteq> i \<Longrightarrow> record_branch m i t ops cl j = m j"
proof (cases "is_strn ops")
  case True
  then obtain len ret where "ops = OpsStrn len ret" by (cases ops) auto
  moreover assume "j \<noteq> i"
  ultimately show ?thesis
    by (simp add: log_strncmp_closed strn_transition_def)
next
  case False
  moreover assume "j \<noteq> i"
  ultimately show ?thesis
    by (simp add: record_branch_closed spec_transition_def split: option.split)
qed

lemma record_branch_step_le:
  "state_le (cell_state (m j)) (cell_state (record_branch m i t ops cl j))"
proof (cases "j = i")
  case False
  then show ?thesis by (simp add: record_branch_other state_le_def)
next
  case True
  show ?thesis
  proof (cases "is_strn ops")
    case strn: True
    then obtain len ret where "ops = OpsStrn len ret" by (cases ops) auto
    with True show ?thesis
      by (auto simp add: log_strncmp_closed strn_transition_def state_le_def cell_state_def [of "m i"])
  next
    case False
    with True show ?thesis
      by (auto simp add: record_branch_closed spec_transition_def state_le_def split: option.split)
  qed
qed

lemma state_le_trans: "state_le a b \<Longrightarrow> state_le b c \<Longrightarrow> state_le a c"
  by (auto simp add: state_le_def)

lemma record_branches_le:
  "state_le (cell_state (m j)) (cell_state (record_branches m cs j))"
proof (induction cs arbitrary: m)
  case Nil
  show ?case by (simp add: state_le_def)
next
  case (Cons c cs)
  obtain i t ops cl where c: "c = (i, t, ops, cl)" by (cases c) auto
  have "state_le (cell_state (m j)) (cell_state (record_branch m i t ops cl j))"
    by (rule record_branch_step_le)
  moreover have "state_le (cell_state (record_branch m i t ops cl j))
      (cell_state (record_branches (record_branch m i t ops cl) cs j))"
    by (rule Cons.IH)
  ultimately show ?case unfolding c by (simp add: state_le_trans)
qed

lemma record_branch_saturated:
  "cell_state (m i) = 3 \<Longrightarrow> record_branch m i t ops cl = m"
proof (cases "is_strn ops")
  case True
  then obtain len ret where "ops = OpsStrn len ret" by (cases ops) auto
  moreover assume "cell_state (m i) = 3"
  ultimately show ?thesis by (simp add: log_strncmp_closed cell_state_def)
next
  case False
  assume s: "cell_state (m i) = 3"
  have "m i \<noteq> 0" "m i \<noteq> 1" "m i \<noteq> 2" using s by (auto simp add: cell_state_def)
  with False show ?thesis
    by (auto simp add: record_branch_closed spec_transition_def split: option.split)
qed

lemma record_branches_saturated:
  "cell_state (m j) = 3 \<Longrightarrow> record_branches m cs j = m j"
proof (induction cs arbitrary: m)
  case Nil
  show ?case by simp
next
  case (Cons c cs)
  obtain i t ops cl where c: "c = (i, t, ops, cl)" by (cases c) auto
  have same: "record_branch m i t ops cl j = m j"
  proof (cases "j = i")
    case True
    with Cons.prems show ?thesis by (simp add: record_branch_saturated)
  next
    case False
    then show ?thesis by (rule record_branch_other)
  qed
  with Cons.prems have "cell_state (record_branch m i t ops cl j) = 3" by simp
  then have "record_branches (record_branch m i t ops cl) cs j = record_branch m i t ops cl j"
    by (rule Cons.IH)
  with same show ?case unfolding c by simp
qed

lemma record_branch_no_polarity:
  "recorded t ops = None \<Longrightarrow> record_branch m i t ops cl = m"
proof -
  assume n: "recorded t ops = None"
  then have "\<not> is_strn ops" by (cases ops) (auto simp add: recorded_def)
  with n show ?thesis by (simp add: record_branch_closed)
qed

lemma record_branch_same:
  assumes "recorded t ops = Some p" and "cell_state (m i) = pol_code p"
  shows "record_branch m i t ops cl = m"
proof (cases "is_strn ops")
  case True
  then obtain len ret where o: "ops = OpsStrn len ret" by (cases ops) auto
  with assms show ?thesis
    by (auto simp add: log_strncmp_closed strn_transition_def recorded_def
        pol_code_def cell_state_def [of "m i"] signed_eq_0_iff split: if_splits)
next
  case False
  have "p \<Longrightarrow> m i \<noteq> 0 \<and> m i \<noteq> 2" "\<not> p \<Longrightarrow> m i \<noteq> 0 \<and> m i \<noteq> 1"
    using assms(2) by (auto simp add: pol_code_def)
  with False assms(1) show ?thesis
    by (auto simp add: record_branch_closed spec_transition_def)
qed

section \<open>Branch-distance recorder: the distance\<close>

lemma sint_diff_scast8:
  "sint ((scast (a :: 8 word) :: 32 word) - scast (b :: 8 word)) = sint a - sint b"
proof -
  have a: "- 128 \<le> sint a" "sint a < 128" using sint_ge [of a] sint_lt [of a] by simp_all
  have b: "- 128 \<le> sint b" "sint b < 128" using sint_ge [of b] sint_lt [of b] by simp_all
  have sa: "sint (scast a :: 32 word) = sint a" by (simp add: sint_up_scast is_up)
  have sb: "sint (scast b :: 32 word) = sint b" by (simp add: sint_up_scast is_up)
  have "sint ((scast a :: 32 word) - scast b) = signed_take_bit 31 (sint a - sint b)"
    by (simp add: sint_word_ariths sa sb)
  also have "\<dots> = sint a - sint b"
    using a b by (intro signed_take_bit_int_eq_self) simp_all
  finally show ?thesis .
qed

lemma sint_diff_scast16:
  "sint ((scast (a :: 16 word) :: 32 word) - scast (b :: 16 word)) = sint a - sint b"
proof -
  have a: "- 32768 \<le> sint a" "sint a < 32768" using sint_ge [of a] sint_lt [of a] by simp_all
  have b: "- 32768 \<le> sint b" "sint b < 32768" using sint_ge [of b] sint_lt [of b] by simp_all
  have sa: "sint (scast a :: 32 word) = sint a" by (simp add: sint_up_scast is_up)
  have sb: "sint (scast b :: 32 word) = sint b" by (simp add: sint_up_scast is_up)
  have "sint ((scast a :: 32 word) - scast b) = signed_take_bit 31 (sint a - sint b)"
    by (simp add: sint_word_ariths sa sb)
  also have "\<dots> = sint a - sint b"
    using a b by (intro signed_take_bit_int_eq_self) simp_all
  finally show ?thesis .
qed

lemma narrow_fits: "is_narrow ops \<Longrightarrow> fits ops"
proof (cases ops)
  case (Ops8 a b)
  have "- 128 \<le> sint a" "sint a < 128" "- 128 \<le> sint b" "sint b < 128"
    using sint_ge [of a] sint_lt [of a] sint_ge [of b] sint_lt [of b] by simp_all
  with Ops8 show ?thesis by (simp add: fits_def)
next
  case (Ops16 a b)
  have "- 32768 \<le> sint a" "sint a < 32768" "- 32768 \<le> sint b" "sint b < 32768"
    using sint_ge [of a] sint_lt [of a] sint_ge [of b] sint_lt [of b] by simp_all
  with Ops16 show ?thesis by (simp add: fits_def)
qed simp_all

lemma br_dist_wrapped:
  "\<not> is_str ops \<Longrightarrow> br_dist_of ops = signed_take_bit (dist_bits ops - 1) (exact_dist ops)"
proof (cases ops)
  case (Ops8 a b)
  have "fits ops" using Ops8 by (simp add: narrow_fits)
  then have "signed_take_bit 31 (sint a - sint b) = sint a - sint b"
    using Ops8 by (intro signed_take_bit_int_eq_self) (simp_all add: fits_def)
  with Ops8 show ?thesis by (simp add: sint_diff_scast8)
next
  case (Ops16 a b)
  have "fits ops" using Ops16 by (simp add: narrow_fits)
  then have "signed_take_bit 31 (sint a - sint b) = sint a - sint b"
    using Ops16 by (intro signed_take_bit_int_eq_self) (simp_all add: fits_def)
  with Ops16 show ?thesis by (simp add: sint_diff_scast16)
next
  case (Ops32 a b)
  then show ?thesis by (simp add: sint_word_ariths)
next
  case (Ops64 a b)
  then show ?thesis by (simp add: sint_word_ariths)
qed simp_all

lemma br_dist_fits: "fits ops \<Longrightarrow> br_dist_of ops = exact_dist ops"
proof (cases "is_str ops")
  case True
  then show ?thesis by (cases ops) simp_all
next
  case False
  assume "fits ops"
  then have "signed_take_bit (dist_bits ops - 1) (exact_dist ops) = exact_dist ops"
    by (intro signed_take_bit_int_eq_self) (simp_all add: fits_def)
  with False show ?thesis by (simp add: br_dist_wrapped)
qed

lemma classify_closed:
  "\<not> is_strn ops \<Longrightarrow>
     classify t ops = (case recorded t ops of None \<Rightarrow> 0 | Some p \<Rightarrow> pol_code p)"
  by (simp add: classify_def record_branch_closed zero_area_def spec_transition_def pol_code_def
      split: option.split)

lemma br_dist_zero: "\<not> is_str ops \<Longrightarrow> br_dist_of ops = 0 \<longleftrightarrow> exact_dist ops = 0"
proof (cases ops)
  case (Ops8 a b) then show ?thesis by (simp add: sint_diff_scast8)
next
  case (Ops16 a b) then show ?thesis by (simp add: sint_diff_scast16)
next
  case (Ops32 a b) then show ?thesis by (auto simp add: signed_eq_0_iff intro: signed_word_eqI)
next
  case (Ops64 a b) then show ?thesis by (auto simp add: signed_eq_0_iff intro: signed_word_eqI)
qed simp_all

text \<open>
  Claim C5, as amended. For every call of an integer recorder the polarity is the table's
  predicate on the difference of the operands taken in the width of \<^verbatim>\<open>br_dist\<close> with
  two's-complement wrap-around: 32 bits in \<^verbatim>\<open>log_br8\<close>, \<^verbatim>\<open>log_br16\<close> and \<^verbatim>\<open>log_br32\<close>,
  64 bits in \<^verbatim>\<open>log_br64\<close>. It is the predicate on the exact integer difference whenever
  that difference fits in the width, and for the equality family in any case; for the 8-
  and 16-bit recorders the difference always fits.
\<close>

theorem classify_wrapped_distance:
  assumes "\<not> is_str ops"
  shows "classify type ops =
           (case kind_pred type (signed_take_bit (dist_bits ops - 1) (exact_dist ops)) of
              None \<Rightarrow> 0 | Some p \<Rightarrow> pol_code p)
     \<and> (fits ops \<or> type \<in> {2, 7, 11} \<longrightarrow>
          classify type ops = (case kind_pred type (exact_dist ops) of
                                 None \<Rightarrow> 0 | Some p \<Rightarrow> pol_code p))
     \<and> (is_narrow ops \<longrightarrow> fits ops)"
proof -
  from assms have n: "\<not> is_strn ops" by (cases ops) simp_all
  have c: "classify type ops =
      (case kind_pred type (br_dist_of ops) of None \<Rightarrow> 0 | Some p \<Rightarrow> pol_code p)"
    using assms by (simp add: classify_closed [OF n] recorded_def)
  have 1: "classify type ops =
      (case kind_pred type (signed_take_bit (dist_bits ops - 1) (exact_dist ops)) of
         None \<Rightarrow> 0 | Some p \<Rightarrow> pol_code p)"
    using c br_dist_wrapped [OF assms] by simp
  have 2: "classify type ops = (case kind_pred type (exact_dist ops) of
                                 None \<Rightarrow> 0 | Some p \<Rightarrow> pol_code p)"
    if "fits ops \<or> type \<in> {2, 7, 11}"
  proof (cases "fits ops")
    case True
    then show ?thesis using c by (simp add: br_dist_fits)
  next
    case False
    with that have "type \<in> {2, 7, 11}" by simp
    then show ?thesis using c br_dist_zero [OF assms] by (auto simp add: kind_pred_def)
  qed
  show ?thesis using 1 2 narrow_fits by blast
qed

theorem classify_wrapped_distance_witness:
  "\<not> is_str (Ops32 5 3) \<and> fits (Ops32 5 3) \<and> classify 0 (Ops32 5 3) = 1
   \<and> \<not> is_str (Ops8 (-128) 127) \<and> is_narrow (Ops8 (-128) 127)
   \<and> classify 5 (Ops8 (-128) 127) = 1"
proof -
  have h1: "\<not> is_str (Ops32 5 3)" by simp
  have h2: "\<not> is_str (Ops8 (-128) 127)" by simp
  have f: "fits (Ops32 5 3)" by (simp add: fits_def)
  show ?thesis
    using classify_wrapped_distance [OF h1, of 0] classify_wrapped_distance [OF h2, of 5] f
    by (simp add: kind_pred_def pol_code_def)
qed

text \<open>
  The claim as it stands fails where the difference does not fit: \<^verbatim>\<open>log_br32\<close> with the
  greater-than kind 0 and the operands \<open>2147483647\<close> and \<open>-1\<close>, whose difference
  \<open>2147483648\<close> is positive, marks the unseen cell with 2, the other polarity.
\<close>

theorem log_br32_overflow_counterexample:
  "exact_dist (Ops32 2147483647 (- 1)) = 2147483648
   \<and> kind_pred 0 (exact_dist (Ops32 2147483647 (- 1))) = Some True
   \<and> classify 0 (Ops32 2147483647 (- 1)) = 2"
  by (simp add: kind_pred_def classify_closed recorded_def pol_code_def)

section \<open>Branch-distance recorder: the state machine\<close>

lemma str_fits: "is_str ops \<Longrightarrow> fits ops"
proof (cases ops)
  case (OpsStr ret)
  have "- 2147483648 \<le> sint ret" "sint ret < 2147483648"
    using sint_ge [of ret] sint_lt [of ret] by simp_all
  with OpsStr show ?thesis by (simp add: fits_def)
next
  case (OpsStrn len ret)
  have "- 2147483648 \<le> sint ret" "sint ret < 2147483648"
    using sint_ge [of ret] sint_lt [of ret] by simp_all
  with OpsStrn show ?thesis by (simp add: fits_def)
qed simp_all

lemma fits_wrapped: "fits ops \<Longrightarrow> wrapped_dist ops = exact_dist ops"
  unfolding wrapped_dist_def
  by (intro signed_take_bit_int_eq_self) (simp_all add: fits_def)

lemma br_dist_is_wrapped: "br_dist_of ops = wrapped_dist ops"
proof (cases "is_str ops")
  case True
  then have "br_dist_of ops = exact_dist ops" by (cases ops) simp_all
  with True show ?thesis by (simp add: fits_wrapped str_fits)
next
  case False
  then show ?thesis by (simp add: br_dist_wrapped wrapped_dist_def)
qed

lemma recorded_wrapped: "recorded t ops = polarity_on wrapped_dist t ops"
  by (simp add: recorded_def polarity_on_def br_dist_is_wrapped)


lemma pol_code_state [simp]: "cell_state (pol_code b) = pol_code b"
  by (simp add: pol_code_def)

lemma polarity_of_closed:
  "polarity_of t ops = (case recorded t ops of None \<Rightarrow> 0 | Some b \<Rightarrow> pol_code b)"
proof (cases "is_strn ops")
  case True
  then obtain len ret where "ops = OpsStrn len ret" by (cases ops) auto
  then show ?thesis
    by (simp add: polarity_of_def classify_def log_strncmp_closed strn_transition_def
        zero_area_def recorded_def pol_code_def signed_eq_0_iff)
next
  case False
  then show ?thesis
    by (simp add: polarity_of_def classify_closed split: option.split)
qed

lemma le_3_cases: "(x :: u8) \<le> 3 \<Longrightarrow> x = 0 \<or> x = 1 \<or> x = 2 \<or> x = 3"
proof -
  assume "x \<le> 3"
  then have "unat x \<le> 3" by (simp add: word_le_nat_alt)
  then consider "unat x = 0" | "unat x = 1" | "unat x = 2" | "unat x = 3" by linarith
  then show ?thesis by cases (simp_all add: word_unat_eq_iff)
qed

lemma state_plain: "plain (cell_state c)"
  unfolding plain_def cell_state_def
  by (rule le_3_cases) (rule word_and_le1)

lemma plain_state: "plain c \<Longrightarrow> cell_state c = c"
  by (auto simp add: plain_def)

lemma absorb_same: "absorb s p = s \<longleftrightarrow> s = 3 \<or> p = 0 \<or> s = p"
  by (auto simp add: absorb_def)

lemma record_branch_absorb:
  assumes "is_strn ops \<or> plain (m i)"
  shows "cell_state (record_branch m i t ops cl i) = absorb (cell_state (m i)) (polarity_of t ops)"
proof (cases "is_strn ops")
  case True
  then obtain len ret where o: "ops = OpsStrn len ret" by (cases ops) auto
  have "plain (m i AND 3)" using state_plain [of "m i"] by (simp add: cell_state_def)
  then show ?thesis
    unfolding o
    by (auto simp add: log_strncmp_closed strn_transition_def polarity_of_closed recorded_def
        absorb_def pol_code_def plain_def cell_state_def [of "m i"] signed_eq_0_iff)
next
  case False
  with assms have "plain (m i)" by simp
  with False show ?thesis
    by (auto simp add: record_branch_closed spec_transition_def polarity_of_closed absorb_def
        pol_code_def plain_def split: option.split)
qed

lemma record_branch_plain:
  "\<not> is_strn ops \<Longrightarrow> plain (m i) \<Longrightarrow> plain (record_branch m i t ops cl i)"
  by (auto simp add: record_branch_closed spec_transition_def plain_def split: option.split)

lemma record_branch_packed:
  "\<not> is_strn ops \<Longrightarrow> \<not> plain (m i) \<Longrightarrow> record_branch m i t ops cl = m"
  by (auto simp add: record_branch_closed spec_transition_def plain_def split: option.split)

lemma record_branch_idle:
  assumes "absorb (cell_state (m i)) (polarity_of t ops) = cell_state (m i)"
  shows "record_branch m i t ops cl = m"
proof -
  from assms consider "cell_state (m i) = 3" | "polarity_of t ops = 0"
    | "polarity_of t ops \<noteq> 0" "cell_state (m i) = polarity_of t ops"
    by (auto simp add: absorb_same)
  then show ?thesis
  proof cases
    case 1
    then show ?thesis by (rule record_branch_saturated)
  next
    case 2
    then have "recorded t ops = None"
      by (simp add: polarity_of_closed pol_code_def split: option.splits if_splits)
    then show ?thesis by (rule record_branch_no_polarity)
  next
    case 3
    then obtain b where "recorded t ops = Some b" "cell_state (m i) = pol_code b"
      by (auto simp add: polarity_of_closed split: option.splits)
    then show ?thesis by (rule record_branch_same)
  qed
qed

lemma record_branches_absorb:
  "one_recorder j m cs \<Longrightarrow>
     cell_state (record_branches m cs j) = foldl absorb (cell_state (m j)) (polarities j cs)"
proof (induction cs arbitrary: m)
  case Nil
  show ?case by simp
next
  case (Cons c cs)
  obtain i t ops cl where c: "c = (i, t, ops, cl)" by (cases c) auto
  let ?m = "record_branch m i t ops cl"
  show ?case
  proof (cases "i = j")
    case False
    then have same: "?m j = m j" by (simp add: record_branch_other)
    with Cons.prems False have "one_recorder j ?m cs" by (auto simp add: one_recorder_def c)
    from Cons.IH [OF this] same False show ?thesis by (simp add: c)
  next
    case True
    show ?thesis
    proof (cases "is_strn ops")
      case strn: True
      with Cons.prems True have "one_recorder j ?m cs" by (auto simp add: one_recorder_def c)
      from Cons.IH [OF this] strn True show ?thesis by (simp add: c record_branch_absorb)
    next
      case False
      with Cons.prems True have p: "plain (m j)" and n: "\<not> list_ex (strn_at j) cs"
        by (auto simp add: one_recorder_def c)
      from False p True have "plain (?m j)" by (simp add: record_branch_plain)
      with n have "one_recorder j ?m cs" by (simp add: one_recorder_def)
      from Cons.IH [OF this] p True show ?thesis by (simp add: c record_branch_absorb)
    qed
  qed
qed

lemma polarity_simps:
  "polarity_of 0 (Ops32 5 3) = 1"
  "polarity_of 0 (Ops32 3 5) = 2"
  "polarity_of 10 (Ops32 3 5) = 0"
  "polarity_of 0 (OpsStr 1) = 2"
  "polarity_of 0 (OpsStrn 6 1) = 2"
  "polarity_of 10 (OpsStr 0) = 1"
  by (simp_all add: polarity_of_closed recorded_def kind_pred_def pol_code_def)

text \<open>
  Claim C1. For every branch id \<open>j\<close> and every sequence \<open>cs\<close> of recorder calls (any of the
  six entry points, any ids, any kinds), the state of the cell of \<open>j\<close>, its two low bits,
  only moves upward in \<open>0 < {1, 2} < 3\<close>, and a cell whose state is 3 keeps its byte. A
  branch id stands for one comparison site, which calls one recorder; then the state
  after the sequence is the state machine of the specification run over the polarities
  of the calls for \<open>j\<close>: an unseen cell takes the polarity of the call, the same polarity
  again changes nothing, the opposite polarity saturates, a saturated cell stays. Call by
  call: \<^verbatim>\<open>log_strncmp\<close> follows the machine on every cell, the other five recorders on every
  plain cell, which they leave plain; a call on which the machine does not move leaves
  the whole map as it was; the five leave a cell that carries a packed length as it is;
  no call changes the cell of another id. The polarity of a call is the one of the
  specification on the distance in the width of \<^verbatim>\<open>br_dist\<close>: for an integer recorder the
  table's predicate for the kind, and none for a kind outside the table; for a string
  recorder the equality rule on the library result, whatever the kind.
\<close>

theorem record_branch_state_machine:
  "state_le (cell_state (m j)) (cell_state (record_branches m cs j))
   \<and> (cell_state (m j) = 3 \<longrightarrow> record_branches m cs j = m j)
   \<and> (one_recorder j m cs \<longrightarrow>
        cell_state (record_branches m cs j) = foldl absorb (cell_state (m j)) (polarities j cs))
   \<and> (is_strn ops \<or> plain (m i) \<longrightarrow>
        cell_state (record_branch m i t ops cl i) = absorb (cell_state (m i)) (polarity_of t ops))
   \<and> (\<not> is_strn ops \<and> plain (m i) \<longrightarrow> plain (record_branch m i t ops cl i))
   \<and> (absorb (cell_state (m i)) (polarity_of t ops) = cell_state (m i) \<longrightarrow>
        record_branch m i t ops cl = m)
   \<and> (\<not> is_strn ops \<and> \<not> plain (m i) \<longrightarrow> record_branch m i t ops cl = m)
   \<and> (j \<noteq> i \<longrightarrow> record_branch m i t ops cl j = m j)
   \<and> polarity_of t ops = (case polarity_on wrapped_dist t ops of None \<Rightarrow> 0 | Some b \<Rightarrow> pol_code b)"
  using record_branch_idle [of m i t ops cl]
  by (simp add: record_branches_le record_branches_saturated record_branches_absorb
      record_branch_absorb record_branch_plain record_branch_packed record_branch_other
      polarity_of_closed recorded_wrapped)

theorem record_branch_state_machine_witness:
  "cell_state (record_branches zero_area [(7, 0, Ops32 5 3, 0), (7, 0, Ops32 3 5, 0)] 7) = 3
   \<and> cell_state (record_branch zero_area 7 0 (Ops32 5 3) 0 7) = 1
   \<and> record_branches (zero_area(7 := 3)) [(7, 0, Ops32 3 5, 0)] 7 = 3
   \<and> record_branch (zero_area(7 := 3)) 7 0 (Ops32 3 5) 0 = zero_area(7 := 3)
   \<and> record_branch (zero_area(7 := 21)) 7 0 (OpsStr 1) 0 = zero_area(7 := 21)
   \<and> cell_state (record_branch (zero_area(7 := 21)) 7 0 (OpsStrn 6 1) 0 7) = 3
   \<and> record_branch zero_area 7 10 (Ops32 3 5) 0 = zero_area
   \<and> cell_state (record_branch zero_area 7 10 (OpsStr 0) 0 7) = 1
   \<and> record_branch zero_area 7 0 (Ops32 5 3) 0 8 = zero_area 8"
proof -
  have one: "one_recorder 7 zero_area [(7, 0, Ops32 5 3, 0), (7, 0, Ops32 3 5, 0)]"
    by (simp add: one_recorder_def plain_def zero_area_def)
  have pl: "plain (zero_area 7)" "\<not> plain ((zero_area(7 := 21)) 7)"
    by (simp_all add: plain_def zero_area_def)
  have st: "cell_state (zero_area 7) = 0" "cell_state ((zero_area(7 := 3)) 7) = 3"
    "cell_state ((zero_area(7 := 21)) 7) = 1"
    by (simp_all add: cell_state_def zero_area_def)
  show ?thesis
    using record_branch_state_machine
        [where m = zero_area and j = 7 and cs = "[(7, 0, Ops32 5 3, 0), (7, 0, Ops32 3 5, 0)]"
           and i = 7 and t = 0 and ops = "Ops32 5 3" and cl = 0]
      record_branch_state_machine
        [where m = "zero_area(7 := 3)" and j = 7 and cs = "[(7, 0, Ops32 3 5, 0)]"
           and i = 7 and t = 0 and ops = "Ops32 3 5" and cl = 0]
      record_branch_state_machine
        [where m = "zero_area(7 := 21)" and j = 8 and cs = "[]"
           and i = 7 and t = 0 and ops = "OpsStr 1" and cl = 0]
      record_branch_state_machine
        [where m = "zero_area(7 := 21)" and j = 8 and cs = "[]"
           and i = 7 and t = 0 and ops = "OpsStrn 6 1" and cl = 0]
      record_branch_state_machine
        [where m = zero_area and j = 8 and cs = "[]"
           and i = 7 and t = 10 and ops = "Ops32 3 5" and cl = 0]
      record_branch_state_machine
        [where m = zero_area and j = 8 and cs = "[]"
           and i = 7 and t = 0 and ops = "Ops32 5 3" and cl = 0]
      record_branch_state_machine
        [where m = zero_area and j = 8 and cs = "[]"
           and i = 7 and t = 10 and ops = "OpsStr 0" and cl = 0]
      one pl st
    by (simp add: polarity_simps absorb_def)
qed

section \<open>Branch-distance recorder: order of arrival\<close>











section \<open>Value capture\<close>

lemma load_store_same: "load_int (store_int m k w) k = w"
  apply (simp add: load_int_def store_int_def)
  apply (rule bit_word_eqI)
  apply (auto simp add: bit_simps)
  subgoal for n
    by (cases "n < 24") simp_all
  done

lemma load_store_other: "j \<noteq> k \<Longrightarrow> load_int (store_int m k w) j = load_int m j"
  by (simp add: load_int_def store_int_def)

lemma store_int_outside:
  "i < 4 * k \<or> 4 * k + 3 < i \<Longrightarrow> store_int m k w i = m i"
  by (auto simp add: store_int_def)

lemma capture_slot_reads:
  "load_int (capture_slot m a b) 0 = load_int m 0"
  "load_int (capture_slot m a b) 1 = a"
  "load_int (capture_slot m a b) 2 = b"
  "load_int (capture_slot m a b) 3 = 12"
  by (simp_all add: capture_slot_def load_store_same load_store_other)

lemma capture_slot_outside: "i < 4 \<or> 15 < i \<Longrightarrow> capture_slot m a b i = m i"
  by (auto simp add: capture_slot_def store_int_outside)

lemma sint_low32: "sint (ucast (a :: 64 word) :: 32 word) = signed_take_bit 31 (sint a)"
proof -
  have "(ucast a :: 32 word) = scast a"
    by (simp add: down_cast_same [symmetric] is_down)
  then show ?thesis by (simp add: signed_scast_eq)
qed

lemma maybe_capture_miss:
  "br_id \<noteq> sint (load_int m 0) \<Longrightarrow> maybe_capture m br_id ops cl = Returns m"
  by (cases ops)
     (simp_all add: check_br8_def check_br16_def check_br32_def check_br64_def
        check_strcmp_def check_strncmp_def)

lemma maybe_capture_hit:
  "br_id = sint (load_int m 0) \<Longrightarrow>
     maybe_capture m br_id ops cl = Exits 0 (capture_slot m (stored_a ops) (stored_b ops))"
  by (cases ops)
     (simp_all add: check_br8_def check_br16_def check_br32_def check_br64_def
        check_strcmp_def check_strncmp_def capture_slot_def)

lemma sint_stored:
  "sint (stored_a ops) = captured_a ops" "sint (stored_b ops) = captured_b ops"
  by (cases ops; simp add: sint_low32 sint_up_scast is_up)+

lemma load_zero: "load_int zero_area k = 0"
  by (simp add: load_int_def zero_area_def)

text \<open>
  Claim C4, as amended. For every call of the capture hook, in each of its six variants: if
  \<open>br_id\<close> differs from the target identifier in \<^verbatim>\<open>int\<close> slot 0 of the map, the call returns
  and the map is unchanged. If it matches, the process ends with \<^verbatim>\<open>exit(0)\<close> and the map it
  leaves holds, in the \<^verbatim>\<open>int\<close> slots 1 and 2, the two operands converted to \<^verbatim>\<open>int\<close> (the value
  of an 8-, 16- or 32-bit operand, the low 32 bits of a 64-bit operand, the first character
  of a string operand), in slot 3 the sentinel 12, and everything outside the bytes 4 to 15,
  the target identifier included, as before.
\<close>

theorem maybe_capture_contract:
  "(br_id \<noteq> sint (load_int m 0) \<longrightarrow> maybe_capture m br_id ops cl = Returns m)
   \<and> (br_id = sint (load_int m 0) \<longrightarrow>
        maybe_capture m br_id ops cl = Exits 0 (final (maybe_capture m br_id ops cl))
        \<and> sint (load_int (final (maybe_capture m br_id ops cl)) 1) = captured_a ops
        \<and> sint (load_int (final (maybe_capture m br_id ops cl)) 2) = captured_b ops
        \<and> load_int (final (maybe_capture m br_id ops cl)) 3 = 12
        \<and> load_int (final (maybe_capture m br_id ops cl)) 0 = load_int m 0
        \<and> (\<forall>i. i < 4 \<or> 15 < i \<longrightarrow> final (maybe_capture m br_id ops cl) i = m i))"
proof (cases "br_id = sint (load_int m 0)")
  case False
  then show ?thesis by (simp add: maybe_capture_miss)
next
  case True
  then show ?thesis
    by (simp add: maybe_capture_hit capture_slot_reads capture_slot_outside sint_stored)
qed

theorem maybe_capture_contract_witness:
  "maybe_capture zero_area 3 (Cap32 5 7) 0 = Returns zero_area
   \<and> sint (load_int (final (maybe_capture zero_area 0 (Cap32 5 7) 0)) 1) = 5
   \<and> sint (load_int (final (maybe_capture zero_area 0 (Cap32 5 7) 0)) 2) = 7
   \<and> load_int (final (maybe_capture zero_area 0 (Cap32 5 7) 0)) 3 = 12
   \<and> final (maybe_capture zero_area 0 (Cap32 5 7) 0) 16 = zero_area 16"
  using maybe_capture_contract [of 3 zero_area "Cap32 5 7" 0]
    maybe_capture_contract [of 0 zero_area "Cap32 5 7" 0]
  by (simp add: load_zero)

text \<open>
  The claim as it stands fails for an operand that is not a 32-bit value: \<^verbatim>\<open>check_br64\<close> with
  the first operand \<open>4294967301\<close> and a matching id leaves 5 in slot 1.
\<close>

theorem check_br64_truncates_counterexample:
  "sint (4294967301 :: 64 word) = 4294967301
   \<and> check_br64 zero_area 0 4294967301 7 0
       = Exits 0 (final (check_br64 zero_area 0 4294967301 7 0))
   \<and> sint (load_int (final (check_br64 zero_area 0 4294967301 7 0)) 1) = 5"
  by (simp add: check_br64_def load_zero load_store_same load_store_other)

section \<open>Edge coverage\<close>

lemma get_put_area [simp]: "get_area (put_area a s) = a"
  by (cases "area_ptr s") (simp_all add: get_area_def put_area_def)

lemma control_put_area [simp]: "control (put_area a s) = control s"
  by (cases "area_ptr s") (simp_all add: control_def put_area_def)

lemma idle_put_area [simp]: "idle_area (put_area a s) = idle_area s"
  by (cases "area_ptr s") (simp_all add: idle_area_def put_area_def)

lemma prev_loc_put_area [simp]: "prev_loc (put_area a s) = prev_loc s"
  by (cases "area_ptr s") (simp_all add: put_area_def)

lemma get_area_prev_loc [simp]: "get_area (s\<lparr>prev_loc := p\<rparr>) = get_area s"
  by (simp add: get_area_def split: area_ref.split)

lemma control_prev_loc [simp]: "control (s\<lparr>prev_loc := p\<rparr>) = control s"
  by (simp add: control_def)

lemma idle_prev_loc [simp]: "idle_area (s\<lparr>prev_loc := p\<rparr>) = idle_area s"
  by (simp add: idle_area_def split: area_ref.split)

lemma xor_below_map:
  assumes "c < 2 ^ 16" and "p < 2 ^ 16"
  shows "(p XOR c :: u32) < 2 ^ 16"
proof -
  have "take_bit 16 c = c" "take_bit 16 p = p"
    using assms by (simp_all add: take_bit_eq_mask less_mask_eq)
  then have "take_bit 16 (p XOR c) = p XOR c" by (simp add: take_bit_xor)
  moreover have "take_bit 16 (p XOR c) < 2 ^ 16"
    using and_mask_less_size [of 16 "p XOR c"] by (simp add: take_bit_eq_mask word_size)
  ultimately show ?thesis by simp
qed

lemma edge_key_in_map:
  assumes "c < 2 ^ 16" and "p < 2 ^ 16"
  shows "edge_key c p = uint (c XOR p) \<and> 0 \<le> edge_key c p \<and> edge_key c p < MAP_SIZE"
proof -
  have lt: "(p XOR c :: u32) < 2 ^ 16" using assms by (rule xor_below_map)
  then have u: "uint (p XOR c) < 2 ^ 16" by (simp add: word_less_def)
  have lo: "- (2 ^ 31) \<le> uint (p XOR c)"
    by (rule order_trans [OF _ uint_ge_0]) simp
  have hi: "uint (p XOR c) < 2 ^ 31" using u by simp
  have "sint (p XOR c) = signed_take_bit 31 (uint (p XOR c))" by (simp add: sint_uint)
  also have "\<dots> = uint (p XOR c)"
    by (rule signed_take_bit_int_eq_self [OF lo hi])
  finally have k: "edge_key c p = uint (p XOR c)" by (simp add: edge_key_def)
  with u show ?thesis by (simp add: MAP_SIZE_def xor.commute)
qed

text \<open>
  Claim C3. One execution of the edge instrumentation with current location \<open>c\<close>, while the
  previous-location register holds \<open>p\<close>, adds 1 modulo 256 to the byte of the active map at
  the index \<open>c XOR p\<close> and to no other byte, sets the register to \<open>c >> 1\<close>, and leaves the
  rest of the runtime state (the pointer, the flags and counters, the other buffer) as it
  was. For locations and a register below the map size the index is \<open>c XOR p\<close> as an
  unsigned number and lies inside the map.
\<close>

theorem record_edge_effect:
  "get_area (record_edge c s) (edge_key c (prev_loc s)) = get_area s (edge_key c (prev_loc s)) + 1
   \<and> unat (get_area (record_edge c s) (edge_key c (prev_loc s)))
        = (unat (get_area s (edge_key c (prev_loc s))) + 1) mod 256
   \<and> (\<forall>i. i \<noteq> edge_key c (prev_loc s) \<longrightarrow> get_area (record_edge c s) i = get_area s i)
   \<and> prev_loc (record_edge c s) = drop_bit 1 c
   \<and> unat (prev_loc (record_edge c s)) = unat c div 2
   \<and> control (record_edge c s) = control s
   \<and> idle_area (record_edge c s) = idle_area s
   \<and> (c < 2 ^ 16 \<and> prev_loc s < 2 ^ 16 \<longrightarrow>
        edge_key c (prev_loc s) = uint (c XOR prev_loc s)
        \<and> 0 \<le> edge_key c (prev_loc s) \<and> edge_key c (prev_loc s) < MAP_SIZE)"
proof -
  have "unat (get_area s (edge_key c (prev_loc s)) + 1)
      = (unat (get_area s (edge_key c (prev_loc s))) + 1) mod 256"
    by (simp add: unat_word_ariths)
  moreover have "unat (drop_bit 1 c) = unat c div 2"
    by (simp add: drop_bit_eq_div unat_div)
  ultimately have effect:
    "get_area (record_edge c s) (edge_key c (prev_loc s)) = get_area s (edge_key c (prev_loc s)) + 1
     \<and> unat (get_area (record_edge c s) (edge_key c (prev_loc s)))
          = (unat (get_area s (edge_key c (prev_loc s))) + 1) mod 256
     \<and> (\<forall>i. i \<noteq> edge_key c (prev_loc s) \<longrightarrow> get_area (record_edge c s) i = get_area s i)
     \<and> prev_loc (record_edge c s) = drop_bit 1 c
     \<and> unat (prev_loc (record_edge c s)) = unat c div 2
     \<and> control (record_edge c s) = control s
     \<and> idle_area (record_edge c s) = idle_area s"
    by (simp add: record_edge_def Let_def)
  have range: "c < 2 ^ 16 \<and> prev_loc s < 2 ^ 16 \<longrightarrow>
        edge_key c (prev_loc s) = uint (c XOR prev_loc s)
        \<and> 0 \<le> edge_key c (prev_loc s) \<and> edge_key c (prev_loc s) < MAP_SIZE"
    using edge_key_in_map [of c "prev_loc s"] by blast
  from effect range show ?thesis by blast
qed

theorem record_edge_effect_witness:
  "get_area (record_edge 5 (init_state\<lparr>prev_loc := 3\<rparr>)) 6 = 1
   \<and> get_area (record_edge 5 (init_state\<lparr>prev_loc := 3\<rparr>)) 7 = 0
   \<and> prev_loc (record_edge 5 (init_state\<lparr>prev_loc := 3\<rparr>)) = 2
   \<and> edge_key 5 3 = 6"
  using record_edge_effect [of 5 "init_state\<lparr>prev_loc := 3\<rparr>"]
  by (simp add: init_state_def get_area_def zero_area_def edge_key_def)

section \<open>Attaching the Feedback Map\<close>

text \<open>
  Claim C8. When the environment supplies a handle and \<^verbatim>\<open>shmat\<close> fails, the process ends at
  once with \<^verbatim>\<open>_exit(1)\<close>. When \<^verbatim>\<open>shmat\<close> succeeds, \<^verbatim>\<open>__afl_map_shm\<close> returns with the
  pointer on the shared segment, whose byte at offset 0 has been set to 1 and whose other
  bytes are as attached; the private buffer is not touched. When there is no handle, the
  call returns with the state as it was: the pointer stays where it is and nothing is
  written.
\<close>

theorem afl_map_shm_contract:
  "(shmat (atoi str) = None \<longrightarrow> afl_map_shm atoi shmat (Some str) s = Exits 1 s)
   \<and> (shmat (atoi str) = Some seg \<longrightarrow>
         afl_map_shm atoi shmat (Some str) s
           = Returns (final (afl_map_shm atoi shmat (Some str) s))
         \<and> area_ptr (final (afl_map_shm atoi shmat (Some str) s)) = AreaShm
         \<and> get_area (final (afl_map_shm atoi shmat (Some str) s)) = seg(0 := 1)
         \<and> get_area (final (afl_map_shm atoi shmat (Some str) s)) 0 \<noteq> 0
         \<and> area_initial (final (afl_map_shm atoi shmat (Some str) s)) = area_initial s)
   \<and> afl_map_shm atoi shmat None s = Returns s"
  by (simp add: afl_map_shm_def Let_def get_area_def put_area_def)

theorem afl_map_shm_contract_witness:
  "afl_map_shm (\<lambda>x. 7) Map.empty (Some ''7'') init_state = Exits 1 init_state
   \<and> area_ptr (final (afl_map_shm (\<lambda>x. 7) [7 \<mapsto> zero_area] (Some ''7'') init_state)) = AreaShm
   \<and> get_area (final (afl_map_shm (\<lambda>x. 7) [7 \<mapsto> zero_area] (Some ''7'') init_state)) 0 = 1"
  using afl_map_shm_contract
      [where shmat = Map.empty and atoi = "\<lambda>x. 7" and str = "''7''" and s = init_state]
    afl_map_shm_contract
      [where shmat = "[7 \<mapsto> zero_area]" and atoi = "\<lambda>x. 7" and str = "''7''"
         and seg = zero_area and s = init_state]
  by simp

section \<open>Persistent-loop helper: the budget\<close>

lemma loop_first:
  assumes "first_pass s \<noteq> 0"
  shows "fst (afl_persistent_loop k s) = 1"
    and "first_pass (snd (afl_persistent_loop k s)) = 0"
    and "cycle_cnt (snd (afl_persistent_loop k s)) = k"
    and "is_persistent (snd (afl_persistent_loop k s)) = is_persistent s"
    and "is_persistent s \<noteq> 0 \<Longrightarrow> get_area (snd (afl_persistent_loop k s)) 0 = 1"
  using assms by (simp_all add: afl_persistent_loop_def Let_def get_area_def put_area_def
      split: area_ref.split)

lemma loop_again:
  assumes "first_pass s = 0" and "is_persistent s \<noteq> 0" and "cycle_cnt s \<noteq> 1"
  shows "fst (afl_persistent_loop k s) = 1"
    and "first_pass (snd (afl_persistent_loop k s)) = 0"
    and "cycle_cnt (snd (afl_persistent_loop k s)) = cycle_cnt s - 1"
    and "is_persistent (snd (afl_persistent_loop k s)) = is_persistent s"
    and "get_area (snd (afl_persistent_loop k s)) 0 = 1"
  using assms by (simp_all add: afl_persistent_loop_def Let_def get_area_def put_area_def
      split: area_ref.split)

lemma loop_done:
  assumes "first_pass s = 0" and "is_persistent s \<noteq> 0" and "cycle_cnt s = 1"
  shows "fst (afl_persistent_loop k s) = 0"
  using assms by (simp add: afl_persistent_loop_def Let_def)

lemma loop_inactive:
  assumes "first_pass s = 0" and "is_persistent s = 0"
  shows "afl_persistent_loop k s = (0, s)"
  using assms by (simp add: afl_persistent_loop_def)

lemma persistent_calls_step:
  "persistent_calls (k # ks) s =
     (fst (afl_persistent_loop k s), get_area (snd (afl_persistent_loop k s)) 0)
       # persistent_calls ks (snd (afl_persistent_loop k s))"
  by (simp add: case_prod_beta)

lemma calls_countdown:
  assumes "first_pass s = 0" and "is_persistent s \<noteq> 0" and "cycle_cnt s \<noteq> 0"
    and "length ks = unat (cycle_cnt s)"
  shows "take (unat (cycle_cnt s) - 1) (persistent_calls ks s)
           = replicate (unat (cycle_cnt s) - 1) (1, 1)
       \<and> map fst (persistent_calls ks s) = replicate (unat (cycle_cnt s) - 1) 1 @ [0]"
  using assms
proof (induction ks arbitrary: s)
  case Nil
  then show ?case by (simp add: unat_eq_zero)
next
  case (Cons k ks)
  let ?s = "snd (afl_persistent_loop k s)"
  show ?case
  proof (cases "cycle_cnt s = 1")
    case True
    with Cons.prems have "ks = []" by simp
    with True Cons.prems show ?thesis
      by (simp add: persistent_calls_step loop_done del: persistent_calls.simps(2))
  next
    case False
    have u: "unat (cycle_cnt s - 1) = unat (cycle_cnt s) - 1"
      using Cons.prems(3) by (simp add: unat_minus_one)
    have pos: "unat (cycle_cnt s) - 1 \<noteq> 0"
    proof
      assume "unat (cycle_cnt s) - 1 = 0"
      with u have "cycle_cnt s - 1 = 0" by (simp add: unat_eq_zero)
      with False show False by simp
    qed
    have st: "first_pass ?s = 0" "is_persistent ?s \<noteq> 0" "cycle_cnt ?s = cycle_cnt s - 1"
      "fst (afl_persistent_loop k s) = 1" "get_area ?s 0 = 1"
      using Cons.prems False by (simp_all add: loop_again)
    have nz: "cycle_cnt ?s \<noteq> 0" using st(3) False by simp
    have len: "length ks = unat (cycle_cnt ?s)" using Cons.prems(4) st(3) u by simp
    from Cons.IH [OF st(1) st(2) nz len]
    have ih: "take (unat (cycle_cnt s) - 1 - 1) (persistent_calls ks ?s)
                = replicate (unat (cycle_cnt s) - 1 - 1) (1, 1)"
      "map fst (persistent_calls ks ?s) = replicate (unat (cycle_cnt s) - 1 - 1) 1 @ [0]"
      by (simp_all add: st(3) u)
    obtain n where n: "unat (cycle_cnt s) - 1 = Suc n" using pos by (cases "unat (cycle_cnt s) - 1") auto
    then have n2: "unat (cycle_cnt s) - 1 - 1 = n" by simp
    have ih': "take n (persistent_calls ks ?s) = replicate n (1, 1)"
      "map fst (persistent_calls ks ?s) = replicate n 1 @ [0]"
      using ih unfolding n2 by simp_all
    show ?thesis
      unfolding n persistent_calls_step using ih' st(4,5) by simp
  qed
qed

lemma calls_inactive:
  assumes "first_pass s = 0" and "is_persistent s = 0"
  shows "map fst (persistent_calls ks s) = replicate (length ks) 0"
  using assms by (induction ks arbitrary: s) (simp_all add: loop_inactive)

text \<open>
  Claim C7. Start from a state in which the helper has not been called yet. If persistent
  mode is active and the first call is made with a budget \<open>k \<ge> 1\<close>, then of \<open>k + 1\<close>
  successive calls (whatever budgets the later calls pass) the first \<open>k\<close> return 1 and
  leave the byte at offset 0 of the active map at 1, and the last returns 0. If persistent
  mode is inactive, the first call returns 1 and every later call returns 0.
\<close>

theorem afl_persistent_loop_budget:
  assumes "first_pass s \<noteq> 0"
  shows "(is_persistent s \<noteq> 0 \<and> k \<noteq> 0 \<and> length ks = unat k \<longrightarrow>
            map fst (persistent_calls (k # ks) s) = replicate (unat k) 1 @ [0]
          \<and> take (unat k) (persistent_calls (k # ks) s) = replicate (unat k) (1, 1))
       \<and> (is_persistent s = 0 \<longrightarrow>
            map fst (persistent_calls (k # ks) s) = 1 # replicate (length ks) 0)"
proof -
  let ?s = "snd (afl_persistent_loop k s)"
  have st: "fst (afl_persistent_loop k s) = 1" "first_pass ?s = 0" "cycle_cnt ?s = k"
    "is_persistent ?s = is_persistent s"
    using assms by (simp_all add: loop_first)
  have active: "map fst (persistent_calls (k # ks) s) = replicate (unat k) 1 @ [0]
      \<and> take (unat k) (persistent_calls (k # ks) s) = replicate (unat k) (1, 1)"
    if a: "is_persistent s \<noteq> 0" "k \<noteq> 0" "length ks = unat k"
  proof -
    have mark: "get_area ?s 0 = 1" using assms a(1) by (rule loop_first(5))
    obtain n where n: "unat k = Suc n" using a(2) by (cases "unat k") (auto simp add: unat_eq_zero)
    have "take (unat (cycle_cnt ?s) - 1) (persistent_calls ks ?s)
           = replicate (unat (cycle_cnt ?s) - 1) (1, 1)
       \<and> map fst (persistent_calls ks ?s) = replicate (unat (cycle_cnt ?s) - 1) 1 @ [0]"
      using st a by (intro calls_countdown) simp_all
    with st mark n show ?thesis
      by (simp add: persistent_calls_step del: persistent_calls.simps(2))
  qed
  have inactive: "map fst (persistent_calls (k # ks) s) = 1 # replicate (length ks) 0"
    if "is_persistent s = 0"
    using that st by (simp add: persistent_calls_step calls_inactive del: persistent_calls.simps(2))
  from active inactive show ?thesis by blast
qed

theorem afl_persistent_loop_budget_witness:
  "map fst (persistent_calls [2, 9, 9] (init_state\<lparr>is_persistent := 1\<rparr>)) = [1, 1, 0]
   \<and> take 2 (persistent_calls [2, 9, 9] (init_state\<lparr>is_persistent := 1\<rparr>)) = [(1, 1), (1, 1)]
   \<and> map fst (persistent_calls [2, 9, 9] init_state) = [1, 0, 0]"
proof -
  have u: "unat (2 :: u32) = Suc (Suc 0)" by simp
  have f: "first_pass (init_state\<lparr>is_persistent := 1\<rparr>) \<noteq> 0" "first_pass init_state \<noteq> 0"
    by (simp_all add: init_state_def)
  have p: "is_persistent (init_state\<lparr>is_persistent := 1\<rparr>) \<noteq> 0" "is_persistent init_state = 0"
    by (simp_all add: init_state_def)
  have l: "length [9 :: u32, 9] = unat (2 :: u32)" by simp
  have k: "(2 :: u32) \<noteq> 0" by simp
  from afl_persistent_loop_budget [OF f(1), of 2 "[9, 9]"] p(1) l k
  have "map fst (persistent_calls [2, 9, 9] (init_state\<lparr>is_persistent := 1\<rparr>))
          = replicate (unat (2 :: u32)) 1 @ [0]
      \<and> take (unat (2 :: u32)) (persistent_calls [2, 9, 9] (init_state\<lparr>is_persistent := 1\<rparr>))
          = replicate (unat (2 :: u32)) (1, 1)"
    by blast
  moreover from afl_persistent_loop_budget [OF f(2), of 2 "[9, 9]"] p(2)
  have "map fst (persistent_calls [2, 9, 9] init_state) = 1 # replicate (length [9 :: u32, 9]) 0"
    by blast
  ultimately show ?thesis unfolding u by (simp add: numeral_2_eq_2)
qed

section \<open>Process supervisor: protocol failures\<close>

lemma fs_parent_cases:
  "fst (fs_parent persistent pid t r) =
     (if write_pid_ret r \<noteq> 4 \<or> wait_ret r < 0 \<or> write_status_ret r \<noteq> 4 then Terminate 1
      else Continue pid (if WIFSTOPPED (wait_status r) then 1 else 0))"
  by (simp add: fs_parent_def Let_def)

lemma fs_round_cases:
  "fst (fs_round persistent pid stopped r) =
     (if protocol_failure stopped r then Terminate 1
      else if forks stopped r \<and> fork_ret r = 0 then InChild
      else Continue (if forks stopped r then fork_ret r else pid)
             (if WIFSTOPPED (wait_status r) then 1 else 0))"
  by (simp add: fs_round_def Let_def fs_parent_cases protocol_failure_def forks_def reaps_def)

lemma fs_loop_fatal:
  "fst (fs_round persistent pid stopped r) = Terminate st \<Longrightarrow>
     fs_loop persistent pid stopped (r # rs) = (Terminated st, snd (fs_round persistent pid stopped r))"
  by (cases "fs_round persistent pid stopped r") simp

lemma fs_loop_append:
  "fs_loop persistent pid stopped good = (AwaitRequest pid' stopped', t) \<Longrightarrow>
     fs_loop persistent pid stopped (good @ rest) =
       (fst (fs_loop persistent pid' stopped' rest), t @ snd (fs_loop persistent pid' stopped' rest))"
proof (induction good arbitrary: pid stopped t)
  case Nil
  then show ?case by simp
next
  case (Cons r good)
  obtain step t1 where r: "fs_round persistent pid stopped r = (step, t1)"
    by (cases "fs_round persistent pid stopped r")
  show ?case
  proof (cases step)
    case (Continue pid1 stopped1)
    obtain out t2 where l: "fs_loop persistent pid1 stopped1 good = (out, t2)"
      by (cases "fs_loop persistent pid1 stopped1 good")
    with Cons.prems r Continue have out: "out = AwaitRequest pid' stopped'" and t: "t = t1 @ t2"
      by simp_all
    from Cons.IH [OF l [unfolded out]] r Continue t show ?thesis
      by (simp add: case_prod_beta)
  next
    case InChild
    with Cons.prems r show ?thesis by simp
  next
    case (Terminate st)
    with Cons.prems r show ?thesis by simp
  qed
qed

text \<open>
  Claim C6. If the first \<^verbatim>\<open>write\<close> of the supervisor does not write 4 bytes, the supervisor
  returns after that one call, and \<^verbatim>\<open>__afl_manual_init\<close> (the map attached or not) returns to
  the target, which runs on unsupervised. Every later protocol failure (a short read of the request, a failing
  wait, a failing fork, a short write of the pid or of the status) ends the process with
  \<^verbatim>\<open>_exit(1)\<close> in the iteration in which it happens, whatever state the loop is in and
  however many iterations went well before; no call is issued after the one that failed
  and the rest of the script is not consumed.
\<close>

theorem forkserver_failures:
  "(hello_ret \<noteq> 4 \<longrightarrow>
      afl_start_forkserver hello_ret rounds s = (Disengaged, [SysWrite FORKSRV_FD_1])
      \<and> (init_done pre = 0 \<and> env_hello_ret e = hello_ret
           \<and> afl_map_shm (env_atoi e) (env_shmat e) (env_shm_id e) pre = Returns s \<longrightarrow>
           afl_manual_init e pre = Returns (s\<lparr>init_done := 1\<rparr>)))
   \<and> (protocol_failure stopped r \<longrightarrow>
        fs_loop persistent pid stopped (r # rs)
          = (Terminated 1, snd (fs_round persistent pid stopped r)))
   \<and> (hello_ret = 4 \<and> fs_loop (is_persistent s) 0 0 good = (AwaitRequest pid stopped, t)
        \<and> protocol_failure stopped r \<longrightarrow>
        afl_start_forkserver hello_ret (good @ r # rs) s
          = (Terminated 1, SysWrite FORKSRV_FD_1 # t @ snd (fs_round (is_persistent s) pid stopped r))
        \<and> (init_done pre = 0 \<and> env_hello_ret e = hello_ret \<and> env_rounds e = good @ r # rs
             \<and> afl_map_shm (env_atoi e) (env_shmat e) (env_shm_id e) pre = Returns s \<longrightarrow>
             afl_manual_init e pre = Exits 1 s))"
proof -
  have fatal: "fs_loop p c st (r # rs) = (Terminated 1, snd (fs_round p c st r))"
    if "protocol_failure st r" for p c st
    using that by (intro fs_loop_fatal) (simp add: fs_round_cases)
  have whole: "afl_start_forkserver hello_ret (good @ r # rs) s
      = (Terminated 1, SysWrite FORKSRV_FD_1 # t @ snd (fs_round (is_persistent s) pid stopped r))"
    if "hello_ret = 4" "fs_loop (is_persistent s) 0 0 good = (AwaitRequest pid stopped, t)"
      "protocol_failure stopped r"
    using that by (simp add: afl_start_forkserver_def fs_loop_append fatal del: fs_loop.simps)
  have quit: "afl_start_forkserver hello_ret rounds s = (Disengaged, [SysWrite FORKSRV_FD_1])"
    if "hello_ret \<noteq> 4"
    using that by (simp add: afl_start_forkserver_def)
  have init_quit: "afl_manual_init e pre = Returns (s\<lparr>init_done := 1\<rparr>)"
    if "hello_ret \<noteq> 4" "init_done pre = 0" "env_hello_ret e = hello_ret"
      "afl_map_shm (env_atoi e) (env_shmat e) (env_shm_id e) pre = Returns s"
    using that by (simp add: afl_manual_init_def afl_start_forkserver_def)
  have init_fatal: "afl_manual_init e pre = Exits 1 s"
    if "hello_ret = 4" "fs_loop (is_persistent s) 0 0 good = (AwaitRequest pid stopped, t)"
      "protocol_failure stopped r" "init_done pre = 0" "env_hello_ret e = hello_ret"
      "env_rounds e = good @ r # rs"
      "afl_map_shm (env_atoi e) (env_shmat e) (env_shm_id e) pre = Returns s"
  proof -
    have "fst (afl_start_forkserver (env_hello_ret e) (env_rounds e) s) = Terminated 1"
      using whole [OF that(1-3)] that(5,6) by simp
    with that(4,7) show ?thesis by (simp add: afl_manual_init_def)
  qed
  from fatal whole quit init_quit init_fatal show ?thesis by blast
qed

theorem forkserver_failures_witness:
  "afl_start_forkserver (- 1) [good_round] init_state = (Disengaged, [SysWrite FORKSRV_FD_1])
   \<and> afl_manual_init no_controller init_state = Returns (init_state\<lparr>init_done := 1\<rparr>)
   \<and> fst (fs_loop 0 1000 0 [fork_fails_round, good_round]) = Terminated 1
   \<and> fst (afl_start_forkserver 4 ([good_round] @ fork_fails_round # [good_round]) init_state)
       = Terminated 1
   \<and> afl_manual_init (no_controller\<lparr>env_hello_ret := 4,
          env_rounds := [good_round] @ fork_fails_round # [good_round]\<rparr>) init_state
       = Exits 1 init_state"
proof -
  have f: "protocol_failure 0 fork_fails_round"
    by (simp add: protocol_failure_def fork_fails_round_def forks_def word_sless_alt)
  have g: "fs_loop (is_persistent init_state) 0 0 [good_round]
      = (AwaitRequest 1000 0,
         [SysRead FORKSRV_FD, SysFork, SysWrite FORKSRV_FD_1, SysWaitpid 1000 NoOptions,
          SysWrite FORKSRV_FD_1])"
    by (simp add: init_state_def good_round_def fs_round_def fs_parent_def WIFSTOPPED_def Let_def
        word_sless_alt)
  show ?thesis
    using forkserver_failures
        [where hello_ret = "- 1" and rounds = "[good_round]" and s = init_state
           and pre = init_state and e = no_controller]
      forkserver_failures
        [where hello_ret = 4 and s = init_state and pre = init_state
           and e = "no_controller\<lparr>env_hello_ret := 4,
             env_rounds := [good_round] @ fork_fails_round # [good_round]\<rparr>"
           and stopped = 0 and r = fork_fails_round and persistent = 0 and pid = 1000
           and good = "[good_round]" and rs = "[good_round]"
           and t = "[SysRead FORKSRV_FD, SysFork, SysWrite FORKSRV_FD_1,
             SysWaitpid 1000 NoOptions, SysWrite FORKSRV_FD_1]"] f g
    by (simp add: init_state_def no_controller_def afl_map_shm_def del: fs_loop.simps)
qed

section \<open>Instrumentation density: validation\<close>

lemma target_error_simps [simp]:
  "target_error (Returns x) = None"
  "target_error (Exits st x) = None"
  "target_error (Blocks x) = None"
  "target_error (Aborts msg x) = Some (RunTime, msg)"
  by (simp_all add: target_error_def)

lemma target_error_on_area: "target_error (on_area r s) = target_error r"
  by (cases r) simp_all

lemma target_error_afl_map_shm: "target_error (afl_map_shm atoi shmat x s) = None"
  by (simp add: afl_map_shm_def Let_def split: option.split)

lemma target_error_afl_manual_init: "target_error (afl_manual_init e s) = None"
  using target_error_afl_map_shm [of "env_atoi e" "env_shmat e" "env_shm_id e" s]
  by (cases "afl_map_shm (env_atoi e) (env_shmat e) (env_shm_id e) s")
    (simp_all add: afl_manual_init_def split: fs_outcome.split)

lemma target_error_maybe_capture: "target_error (maybe_capture m br_id ops cl) = None"
  by (cases ops)
    (simp_all add: check_br8_def check_br16_def check_br32_def check_br64_def
      check_strcmp_def check_strncmp_def Let_def)

lemma target_error_exec: "target_error (exec e s) = None"
  by (cases e)
    (simp_all add: target_error_on_area target_error_maybe_capture target_error_afl_manual_init)

lemma target_error_run: "target_error (run es s) = None"
proof (induction es arbitrary: s)
  case Nil
  then show ?case by simp
next
  case (Cons e es)
  then show ?case
    using target_error_exec [of e s] by (cases "exec e s") simp_all
qed

text \<open>
  Claim C9, as amended. A density value is checked where it is used, as the number the C
  library makes of the variable. In the pass, at instrumentation time: a value that
  \<^verbatim>\<open>sscanf\<close> does not convert, or converts to 0 or to more than 100, ends the pass with a
  message that names the variable and the range, and no block is instrumented; when
  blocks are instrumented the ratio is the number as converted, or 100 without the
  variable. In the initialiser of the guard table, at run time, when the target loads the
  module: on a table that is not empty and not yet initialised a value that \<^verbatim>\<open>atoi\<close> reads
  as 0 or as more than 100 aborts the target with such a message and no guard assigned;
  when guards are assigned the ratio is the number as read, or 100 without the variable;
  on an empty or initialised table the value is not looked at. No number is clamped. The
  operations of the runtime on its state never abort.
\<close>

theorem density_validated:
  "(sscanf_u str = (n, v) \<and> (n \<noteq> 1 \<or> v = 0 \<or> 100 < v) \<longrightarrow>
      instrument_blocks sscanf_u (Some str) draws
        = Inl ''Bad value of AFL_INST_RATIO (must be between 1 and 100)''
      \<and> pass_error (instrument_blocks sscanf_u (Some str) draws)
        = Some (InstrumentationTime, ''Bad value of AFL_INST_RATIO (must be between 1 and 100)''))
   \<and> (instrument_blocks sscanf_u x draws = Inr bs \<longrightarrow>
        (\<exists>ratio. ratio \<noteq> 0 \<and> ratio \<le> 100
           \<and> (x = None \<and> ratio = 100 \<or> (\<exists>str. x = Some str \<and> sscanf_u str = (1, ratio)))
           \<and> bs = map (\<lambda>r. R r 100 < unat ratio) draws))
   \<and> (atoi str = 0 \<or> 100 < atoi str \<longrightarrow>
        trace_pc_guard_init atoi rnd (Some str) (0 # gs)
          = Aborts (''[-] ERROR: Invalid AFL_INST_RATIO (must be 1-100).'' @ [CHR 0x0A]) (0 # gs)
        \<and> target_error (trace_pc_guard_init atoi rnd (Some str) (0 # gs))
          = Some (RunTime, ''[-] ERROR: Invalid AFL_INST_RATIO (must be 1-100).'' @ [CHR 0x0A]))
   \<and> (trace_pc_guard_init atoi rnd y guards = Returns gs' \<longrightarrow>
        (guards = [] \<or> hd guards \<noteq> 0) \<and> gs' = guards
        \<or> (\<exists>ratio. ratio \<noteq> 0 \<and> ratio \<le> 100
             \<and> (y = None \<and> ratio = 100 \<or> (\<exists>str. y = Some str \<and> atoi str = ratio))
             \<and> gs' = of_nat (R (rnd 0) (nat (MAP_SIZE - 1)) + 1)
                       # fill_guards ratio rnd 1 (tl guards)))
   \<and> (guards = [] \<or> hd guards \<noteq> 0 \<longrightarrow>
        trace_pc_guard_init atoi rnd y guards = Returns guards)
   \<and> target_error (run es s) = None"
  by (auto simp add: decide_inst_ratio_def instrument_blocks_def trace_pc_guard_init_def Let_def
      pass_error_def target_error_run linorder_not_le
      split: option.splits prod.splits if_splits list.splits sum.splits)

theorem density_validated_witness:
  "instrument_blocks (\<lambda>str. (1, 0)) (Some ''0'') [3, 250]
     = Inl ''Bad value of AFL_INST_RATIO (must be between 1 and 100)''
   \<and> pass_error (instrument_blocks (\<lambda>str. (1, 101)) (Some ''101'') [3, 250])
     = Some (InstrumentationTime, ''Bad value of AFL_INST_RATIO (must be between 1 and 100)'')
   \<and> pass_error (instrument_blocks (\<lambda>str. (0, 100)) (Some ''abc'') [3, 250])
     = Some (InstrumentationTime, ''Bad value of AFL_INST_RATIO (must be between 1 and 100)'')
   \<and> instrument_blocks (\<lambda>str. (1, 50)) (Some ''50'') [3, 250] = Inr [True, False]
   \<and> trace_pc_guard_init (\<lambda>str. 101) (\<lambda>n. 0) (Some ''101'') [0, 0]
     = Aborts (''[-] ERROR: Invalid AFL_INST_RATIO (must be 1-100).'' @ [CHR 0x0A]) [0, 0]
   \<and> trace_pc_guard_init (\<lambda>str. 50) (\<lambda>n. 0) (Some ''50'') [0, 0] = Returns [1, 1]
   \<and> trace_pc_guard_init (\<lambda>str. 0) (\<lambda>n. 0) (Some ''0'') [9, 0] = Returns [9, 0]"
proof -
  have a: "instrument_blocks (\<lambda>str. (1, 50)) (Some ''50'') [3, 250] = Inr [True, False]"
    by (simp add: instrument_blocks_def decide_inst_ratio_def R_def)
  have b: "trace_pc_guard_init (\<lambda>str. 50) (\<lambda>n. 0) (Some ''50'') [0, 0] = Returns [1, 1]"
    by (simp add: trace_pc_guard_init_def R_def MAP_SIZE_def)
  show ?thesis
    using density_validated
        [where sscanf_u = "\<lambda>str. (1, 0)" and str = "''0''" and n = 1 and v = 0
           and draws = "[3, 250]" and x = None and bs = "[]" and atoi = "\<lambda>str. 0"
           and rnd = "\<lambda>n. 0" and gs = "[0]" and y = "Some ''0''" and guards = "[9, 0]"
           and gs' = "[]" and es = "[]" and s = init_state]
      density_validated
        [where sscanf_u = "\<lambda>str. (1, 101)" and str = "''101''" and n = 1 and v = 101
           and draws = "[3, 250]" and x = None and bs = "[]" and atoi = "\<lambda>str. 101"
           and rnd = "\<lambda>n. 0" and gs = "[0]" and y = "Some ''0''" and guards = "[9, 0]"
           and gs' = "[]" and es = "[]" and s = init_state]
      density_validated
        [where sscanf_u = "\<lambda>str. (0, 100)" and str = "''abc''" and n = 0 and v = 100
           and draws = "[3, 250]" and x = None and bs = "[]" and atoi = "\<lambda>str. 0"
           and rnd = "\<lambda>n. 0" and gs = "[0]" and y = "Some ''0''" and guards = "[9, 0]"
           and gs' = "[]" and es = "[]" and s = init_state]
      density_validated
        [where sscanf_u = "\<lambda>str. (1, 50)" and str = "''50''" and n = 1 and v = 50
           and draws = "[3, 250]" and x = "Some ''50''" and bs = "[True, False]"
           and atoi = "\<lambda>str. 50" and rnd = "\<lambda>n. 0" and gs = "[0]" and y = "Some ''50''"
           and guards = "[0, 0]" and gs' = "[1, 1]" and es = "[]" and s = init_state]
    by (simp add: a b pass_error_def)
qed

text \<open>
  The claim as it stands fails in the guard-table initialiser: with the variable set to
  \<open>0\<close> and a fresh table of two guards the target process is aborted when the module is
  loaded, which is a fatal error at run time.
\<close>

theorem guard_init_aborts_target_counterexample:
  "trace_pc_guard_init (\<lambda>str. 0) (\<lambda>n. 0) (Some ''0'') [0, 0]
     = Aborts (''[-] ERROR: Invalid AFL_INST_RATIO (must be 1-100).'' @ [CHR 0x0A]) [0, 0]
   \<and> target_error (trace_pc_guard_init (\<lambda>str. 0) (\<lambda>n. 0) (Some ''0'') [0, 0])
     = Some (RunTime, ''[-] ERROR: Invalid AFL_INST_RATIO (must be 1-100).'' @ [CHR 0x0A])"
  by (simp add: trace_pc_guard_init_def target_error_def)

section \<open>The persistent-mode flag\<close>

lemma put_area_fields [simp]:
  "is_persistent (put_area a s) = is_persistent s"
  "sigstops (put_area a s) = sigstops s"
  "first_pass (put_area a s) = first_pass s"
  "area_ptr (put_area a s) = area_ptr s"
  by (cases "area_ptr s"; simp add: put_area_def)+

lemma final_on_area [simp]: "final (on_area out s) = put_area (final out) s"
  by (cases out) simp_all

lemma on_area_Returns: "on_area out s = Returns s1 \<Longrightarrow> s1 = put_area (final out) s"
  by (cases out) auto

lemma record_edge_fields [simp]:
  "is_persistent (record_edge c s) = is_persistent s"
  "sigstops (record_edge c s) = sigstops s"
  "first_pass (record_edge c s) = first_pass s"
  by (simp_all add: record_edge_def Let_def)

lemma trace_pc_guard_fields [simp]:
  "is_persistent (trace_pc_guard g s) = is_persistent s"
  "sigstops (trace_pc_guard g s) = sigstops s"
  "first_pass (trace_pc_guard g s) = first_pass s"
  by (simp_all add: trace_pc_guard_def)

lemma loop_is_persistent [simp]:
  "is_persistent (snd (afl_persistent_loop k s)) = is_persistent s"
  by (simp add: afl_persistent_loop_def Let_def)

lemma loop_not_persistent:
  assumes "is_persistent s = 0"
  shows "afl_persistent_loop k s =
           (if first_pass s \<noteq> 0 then (1, s\<lparr>cycle_cnt := k, first_pass := 0\<rparr>) else (0, s))"
  using assms by (simp add: afl_persistent_loop_def)

lemma map_shm_fields [simp]:
  "is_persistent (final (afl_map_shm atoi shmat x s)) = is_persistent s"
  "sigstops (final (afl_map_shm atoi shmat x s)) = sigstops s"
  "first_pass (final (afl_map_shm atoi shmat x s)) = first_pass s"
  by (simp_all add: afl_map_shm_def Let_def split: option.split)

lemma manual_init_fields [simp]:
  "is_persistent (final (afl_manual_init e s)) = is_persistent s"
  "sigstops (final (afl_manual_init e s)) = sigstops s"
  "first_pass (final (afl_manual_init e s)) = first_pass s"
proof -
  let ?m = "afl_map_shm (env_atoi e) (env_shmat e) (env_shm_id e) s"
  have m: "is_persistent (final ?m) = is_persistent s" "sigstops (final ?m) = sigstops s"
    "first_pass (final ?m) = first_pass s" by simp_all
  show "is_persistent (final (afl_manual_init e s)) = is_persistent s"
    using m(1) by (cases ?m) (auto simp add: afl_manual_init_def split: fs_outcome.split)
  show "sigstops (final (afl_manual_init e s)) = sigstops s"
    using m(2) by (cases ?m) (auto simp add: afl_manual_init_def split: fs_outcome.split)
  show "first_pass (final (afl_manual_init e s)) = first_pass s"
    using m(3) by (cases ?m) (auto simp add: afl_manual_init_def split: fs_outcome.split)
qed

lemma exec_is_persistent: "is_persistent (final (exec e s)) = is_persistent s"
  by (cases e) simp_all

lemma exec_sigstops: "is_persistent s = 0 \<Longrightarrow> sigstops (final (exec e s)) = sigstops s"
  by (cases e) (simp_all add: loop_not_persistent)

lemma exec_first_pass:
  "first_pass (final (exec e s)) =
     (case e of Loop k \<Rightarrow> first_pass (snd (afl_persistent_loop k s)) | other \<Rightarrow> first_pass s)"
  by (cases e) simp_all

lemma exec_Returns_fields:
  assumes "exec e s = Returns s1"
  shows "is_persistent s1 = is_persistent s"
    and "first_pass s1 =
      (case e of Loop k \<Rightarrow> first_pass (snd (afl_persistent_loop k s)) | other \<Rightarrow> first_pass s)"
  using exec_is_persistent [of e s] exec_first_pass [of e s] assms by simp_all

lemma run_step:
  "run (e # es) s = (case exec e s of Returns s1 \<Rightarrow> run es s1 | other \<Rightarrow> other)"
  by simp

lemma run_invariant:
  "is_persistent s = 0 \<Longrightarrow>
     is_persistent (final (run evs s)) = 0 \<and> sigstops (final (run evs s)) = sigstops s"
proof (induction evs arbitrary: s)
  case Nil
  then show ?case by simp
next
  case (Cons e es)
  have p: "is_persistent (final (exec e s)) = 0" using Cons.prems by (simp add: exec_is_persistent)
  have g: "sigstops (final (exec e s)) = sigstops s" using Cons.prems by (rule exec_sigstops)
  show ?case
  proof (cases "exec e s")
    case (Returns s1)
    with p g have "is_persistent s1 = 0" "sigstops s1 = sigstops s" by simp_all
    with Cons.IH [of s1] Returns show ?thesis by simp
  qed (use p g in simp_all)
qed

lemma loop_results_zero:
  "first_pass s = 0 \<Longrightarrow> is_persistent s = 0 \<Longrightarrow> \<forall>r\<in>set (loop_results evs s). r = 0"
proof (induction evs arbitrary: s)
  case Nil
  then show ?case by simp
next
  case (Cons e es)
  show ?case
  proof (cases "exec e s")
    case (Returns s1)
    have "is_persistent s1 = 0"
      using exec_Returns_fields(1) [OF Returns] Cons.prems by simp
    moreover have "first_pass s1 = 0"
      using exec_Returns_fields(2) [OF Returns] Cons.prems
      by (simp add: loop_not_persistent split: event.split)
    ultimately have ih: "\<forall>r\<in>set (loop_results es s1). r = 0"
      by (intro Cons.IH)
    have "loop_results (e # es) s =
        (case e of Loop k \<Rightarrow> [0] | other \<Rightarrow> []) @ loop_results es s1"
      using Returns Cons.prems by (simp add: loop_not_persistent split: event.split)
    then show ?thesis
      using ih by (cases e) simp_all
  qed simp_all
qed

lemma loop_results_once:
  "first_pass s \<noteq> 0 \<Longrightarrow> is_persistent s = 0 \<Longrightarrow>
     loop_results evs s = [] \<or>
     loop_results evs s = 1 # replicate (length (loop_results evs s) - 1) 0"
proof (induction evs arbitrary: s)
  case Nil
  then show ?case by simp
next
  case (Cons e es)
  show ?case
  proof (cases "exec e s")
    case (Returns s1)
    have p: "is_persistent s1 = 0"
      using exec_Returns_fields(1) [OF Returns] Cons.prems by simp
    show ?thesis
    proof (cases "\<exists>k. e = Loop k")
      case True
      then obtain k where Loop: "e = Loop k" by blast
      with Returns Cons.prems have "first_pass s1 = 0" by (auto simp add: loop_not_persistent)
      then have "\<forall>r\<in>set (loop_results es s1). r = 0"
        using p by (rule loop_results_zero)
      then have "replicate (length (loop_results es s1)) 0 = loop_results es s1"
        by (intro replicate_length_same) simp
      with Loop Returns Cons.prems show ?thesis by (simp add: loop_not_persistent)
    next
      case False
      then have "first_pass s1 = first_pass s"
        using exec_Returns_fields(2) [OF Returns] by (cases e) simp_all
      with Cons.prems have "first_pass s1 \<noteq> 0" by simp
      from Cons.IH [OF this p] have
        "loop_results es s1 = [] \<or>
         loop_results es s1 = 1 # replicate (length (loop_results es s1) - 1) 0" .
      moreover have "loop_results (e # es) s = loop_results es s1"
        using False Returns by (cases e) simp_all
      ultimately show ?thesis by simp
    qed
  qed simp_all
qed

lemma fs_parent_trace:
  "snd (fs_parent persistent pid t r) =
     t @ take (if write_pid_ret r \<noteq> 4 then 1 else if wait_ret r < 0 then 2 else 3)
           [SysWrite FORKSRV_FD_1,
            SysWaitpid pid (if persistent \<noteq> 0 then WUNTRACED else NoOptions),
            SysWrite FORKSRV_FD_1]"
  by (simp add: fs_parent_def Let_def)

lemma fs_parent_quiet:
  "list_ex is_untraced_wait (snd (fs_parent 0 pid t r)) = list_ex is_untraced_wait t"
  "list_ex is_resume (snd (fs_parent persistent pid t r)) = list_ex is_resume t"
  by (simp_all add: fs_parent_trace)

lemma fs_round_no_untraced:
  "\<not> list_ex is_untraced_wait (snd (fs_round 0 pid stopped r))"
  by (simp add: fs_round_def Let_def fs_parent_quiet)

lemma fs_round_no_resume:
  "\<not> list_ex is_resume (snd (fs_round persistent pid 0 r))"
  by (simp add: fs_round_def Let_def fs_parent_quiet)

lemma fs_round_stays_running:
  "\<not> WIFSTOPPED (wait_status r) \<Longrightarrow>
     fst (fs_round persistent pid stopped r) = Continue pid1 stopped1 \<Longrightarrow> stopped1 = 0"
  by (auto simp add: fs_round_def Let_def fs_parent_def split: if_splits)

lemma fs_loop_step:
  "fs_loop persistent pid stopped (r # rs) =
     (case fst (fs_round persistent pid stopped r) of
        Terminate st \<Rightarrow> (Terminated st, snd (fs_round persistent pid stopped r))
      | InChild \<Rightarrow> (ChildResumes, snd (fs_round persistent pid stopped r))
      | Continue pid1 stopped1 \<Rightarrow>
          (fst (fs_loop persistent pid1 stopped1 rs),
           snd (fs_round persistent pid stopped r) @ snd (fs_loop persistent pid1 stopped1 rs)))"
  by (cases "fs_round persistent pid stopped r")
     (simp add: case_prod_beta split: fs_step.split)

lemma fs_loop_no_untraced:
  "\<not> list_ex is_untraced_wait (snd (fs_loop 0 pid stopped rounds))"
proof (induction rounds arbitrary: pid stopped)
  case Nil
  show ?case by simp
next
  case (Cons r rs)
  show ?case
    unfolding fs_loop_step
    using Cons.IH fs_round_no_untraced [of pid stopped r]
    by (simp split: fs_step.split)
qed

lemma fs_loop_no_resume:
  "\<forall>r\<in>set rounds. \<not> WIFSTOPPED (wait_status r) \<Longrightarrow>
     \<not> list_ex is_resume (snd (fs_loop persistent pid 0 rounds))"
proof (induction rounds arbitrary: pid)
  case Nil
  show ?case by simp
next
  case (Cons r rs)
  have r: "\<not> WIFSTOPPED (wait_status r)" and rs: "\<forall>r\<in>set rs. \<not> WIFSTOPPED (wait_status r)"
    using Cons.prems by simp_all
  show ?case
  proof (cases "fst (fs_round persistent pid 0 r)")
    case (Continue pid1 stopped1)
    then have "stopped1 = 0" using r by (intro fs_round_stays_running)
    with Continue Cons.IH [OF rs, of pid1] fs_round_no_resume [of persistent pid r]
    show ?thesis unfolding fs_loop_step by simp
  next
    case InChild
    with fs_round_no_resume [of persistent pid r] show ?thesis unfolding fs_loop_step by simp
  next
    case (Terminate st)
    with fs_round_no_resume [of persistent pid r] show ?thesis unfolding fs_loop_step by simp
  qed
qed

lemma forkserver_not_persistent:
  assumes "is_persistent s = 0"
  shows "\<not> list_ex is_untraced_wait (snd (afl_start_forkserver hello_ret rounds s))"
    and "\<forall>r\<in>set rounds. \<not> WIFSTOPPED (wait_status r) \<Longrightarrow>
          \<not> list_ex is_resume (snd (afl_start_forkserver hello_ret rounds s))"
  using assms fs_loop_no_untraced [of 0 0 rounds] fs_loop_no_resume [of rounds 0 0]
  by (simp_all add: afl_start_forkserver_def case_prod_beta)

text \<open>
  Claim C10. \<^verbatim>\<open>is_persistent\<close> is zero at program start and no operation of the runtime
  changes it, so it is zero in the state any run has reached, and no \<^verbatim>\<open>raise(SIGSTOP)\<close>
  has happened there. In such a state the persistent-loop helper leaves the Feedback Map
  and the pointer as they are and does not suspend the process; over a whole run its calls
  return 1 once and 0 from then on, whatever budgets they pass. The supervisor started in
  such a state never waits with \<^verbatim>\<open>WUNTRACED\<close>; and as a wait without \<^verbatim>\<open>WUNTRACED\<close> does not
  report stopped children, it never resumes a child instead of forking.
\<close>

theorem persistent_mode_unreachable:
  "is_persistent init_state = 0
   \<and> is_persistent (final (exec e s)) = is_persistent s
   \<and> is_persistent (state_after evs) = 0
   \<and> sigstops (state_after evs) = 0
   \<and> get_area (snd (afl_persistent_loop k (state_after evs))) = get_area (state_after evs)
   \<and> area_ptr (snd (afl_persistent_loop k (state_after evs))) = area_ptr (state_after evs)
   \<and> sigstops (snd (afl_persistent_loop k (state_after evs))) = 0
   \<and> (loop_results evs init_state = []
        \<or> loop_results evs init_state = 1 # replicate (length (loop_results evs init_state) - 1) 0)
   \<and> \<not> list_ex is_untraced_wait (snd (afl_start_forkserver hello_ret rounds (state_after evs)))
   \<and> ((\<forall>r\<in>set rounds. \<not> WIFSTOPPED (wait_status r)) \<longrightarrow>
        \<not> list_ex is_resume (snd (afl_start_forkserver hello_ret rounds (state_after evs))))"
proof -
  have i: "is_persistent init_state = 0" "first_pass init_state \<noteq> 0" "sigstops init_state = 0"
    by (simp_all add: init_state_def)
  have a: "is_persistent (state_after evs) = 0" "sigstops (state_after evs) = 0"
    using run_invariant [OF i(1), of evs] i(3) by (simp_all add: state_after_def)
  have l: "get_area (snd (afl_persistent_loop k (state_after evs))) = get_area (state_after evs)"
    "area_ptr (snd (afl_persistent_loop k (state_after evs))) = area_ptr (state_after evs)"
    "sigstops (snd (afl_persistent_loop k (state_after evs))) = 0"
    using a by (simp_all add: loop_not_persistent get_area_def split: area_ref.split)
  show ?thesis
    using i(1) a l exec_is_persistent [of e s] loop_results_once [OF i(2) i(1), of evs]
      forkserver_not_persistent [OF a(1), where hello_ret = hello_ret and rounds = rounds]
    by blast
qed

theorem persistent_mode_unreachable_witness:
  "is_persistent (state_after [Init no_controller, Loop 5, Edge 3, Loop 5, Loop 5]) = 0
   \<and> loop_results [Init no_controller, Loop 5, Edge 3, Loop 5, Loop 5] init_state = [1, 0, 0]
   \<and> \<not> list_ex is_resume (snd (afl_start_forkserver 4 [good_round, good_round]
         (state_after [Init no_controller, Loop 5, Edge 3, Loop 5, Loop 5])))"
proof -
  have w: "\<forall>r\<in>set [good_round, good_round]. \<not> WIFSTOPPED (wait_status r)"
    by (simp add: good_round_def WIFSTOPPED_def)
  have r: "loop_results [Init no_controller, Loop 5, Edge 3, Loop 5, Loop 5] init_state \<noteq> []"
    "length (loop_results [Init no_controller, Loop 5, Edge 3, Loop 5, Loop 5] init_state) = 3"
    by (simp_all add: init_state_def no_controller_def afl_manual_init_def afl_map_shm_def
        afl_start_forkserver_def afl_persistent_loop_def record_edge_def Let_def put_area_def)
  show ?thesis
    using persistent_mode_unreachable
        [where evs = "[Init no_controller, Loop 5, Edge 3, Loop 5, Loop 5]" and hello_ret = 4
           and rounds = "[good_round, good_round]"]
      w r
    by (simp add: numeral_2_eq_2)
qed

end
